theory Spec2Isabelle
  imports Main "HOL-Library.Sublist"
begin

section \<open>Python strings and the built-ins the module calls\<close>

text \<open>
  The module \<^verbatim>\<open>patrones_commentarios_cbl.py\<close> works on Python \<^verbatim>\<open>str\<close> values:
  sequences of Unicode code points of any size. A string is modelled as the list of its
  code points, each a natural number, so \<^const>\<open>length\<close> counts code points as Python's
  \<^verbatim>\<open>len\<close> does and no character of a real line is outside the model. The statements
  at the end of the module that open a file and print are a usage example and are not part
  of the model; \<^verbatim>\<open>cargar_palabras_reservadas\<close> only reads a file and is left out as
  well.
\<close>

type_synonym str = "nat list"

text \<open>
  String and character literals of the source are written through their code points:
  \<open>code CHR ''*''\<close> is 42, and \<open>codepoints\<close> of a literal is the string of its
  characters.
\<close>

abbreviation code :: "char \<Rightarrow> nat" where
  "code c \<equiv> of_char c"

definition codepoints :: "string \<Rightarrow> str" where
  "codepoints s = map of_char s"

text \<open>
  \<^verbatim>\<open>str.isspace\<close> for one character, which is also the set that \<^verbatim>\<open>strip()\<close> and
  \<^verbatim>\<open>rstrip()\<close> without argument remove: TAB, LF, VT, FF, CR, the separators
  U+001C to U+001F, SPACE, NEL (U+0085), NO-BREAK SPACE (U+00A0), OGHAM SPACE MARK
  (U+1680), the spaces U+2000 to U+200A, LINE SEPARATOR (U+2028), PARAGRAPH SEPARATOR
  (U+2029), NARROW NO-BREAK SPACE (U+202F), MEDIUM MATHEMATICAL SPACE (U+205F) and
  IDEOGRAPHIC SPACE (U+3000).
\<close>

definition isspace :: "nat \<Rightarrow> bool" where
  "isspace c =
     (c \<in> {9, 10, 11, 12, 13, 28, 29, 30, 31, 32, 133, 160, 5760, 8232, 8233, 8239, 8287, 12288}
      \<or> (8192 \<le> c \<and> c \<le> 8202))"

text \<open>
  The line boundaries of \<^verbatim>\<open>str.splitlines\<close>: LF, VT, FF, CR, FS, GS, RS, NEL,
  LINE SEPARATOR and PARAGRAPH SEPARATOR.
\<close>

definition is_linebreak :: "nat \<Rightarrow> bool" where
  "is_linebreak c = (c \<in> {10, 11, 12, 13, 28, 29, 30, 133, 8232, 8233})"

definition lstrip :: "str \<Rightarrow> str" where
  "lstrip s = dropWhile isspace s"

definition rstrip :: "str \<Rightarrow> str" where
  "rstrip s = rev (dropWhile isspace (rev s))"

definition strip :: "str \<Rightarrow> str" where
  "strip s = rstrip (lstrip s)"

text \<open>
  \<^verbatim>\<open>s.replace(old, new)\<close> for a pattern \<^verbatim>\<open>old\<close> of one character: every occurrence
  of that character is replaced, every other character is kept.
\<close>

definition replace :: "nat \<Rightarrow> str \<Rightarrow> str \<Rightarrow> str" where
  "replace old new s = concat (map (\<lambda>c. if c = old then new else [c]) s)"

text \<open>
  \<^verbatim>\<open>sep.join(parts)\<close> for the separator \<^verbatim>\<open>"\n"\<close>, the line feed, code point 10.
\<close>

fun join_nl :: "str list \<Rightarrow> str" where
  "join_nl [] = []"
| "join_nl [l] = l"
| "join_nl (l # m # ls) = l @ 10 # join_nl (m # ls)"

text \<open>
  \<^verbatim>\<open>str.splitlines()\<close>: the text is cut at every line boundary, the boundary itself is
  dropped, CR LF (13, 10) counts as one boundary, and a boundary at the very end of the
  text opens no further (empty) line.
\<close>

fun splitlines :: "str \<Rightarrow> str list" where
  "splitlines [] = []"
| "splitlines (c # cs) =
     (if is_linebreak c then
        [] # splitlines (if c = 13 \<and> take 1 cs = [10] then drop 1 cs else cs)
      else (case splitlines cs of
              [] \<Rightarrow> [[c]]
            | l # ls \<Rightarrow> (c # l) # ls))"

text \<open>
  \<^verbatim>\<open>str.upper()\<close> replaces every character by its upper-case form, which can be more
  than one character (SHARP S becomes \<^verbatim>\<open>SS\<close>). The upper-case forms are a table of
  the Unicode standard, not of the module. Its entries for U+0000 to U+00FF are written
  out, and so are the two for LATIN SMALL LETTER DOTLESS I (U+0131, upper case
  \<^verbatim>\<open>I\<close>) and LATIN SMALL LETTER LONG S (U+017F, upper case \<^verbatim>\<open>S\<close>). The rest of the
  table is the parameter \<open>tabla\<close>: nothing is assumed about it, so whatever is proved
  holds for the real table.
\<close>

definition upper_cp :: "(nat \<Rightarrow> nat list) \<Rightarrow> nat \<Rightarrow> nat list" where
  "upper_cp tabla n =
     (if 97 \<le> n \<and> n \<le> 122 then [n - 32]
      else if n = 181 then [924]
      else if n = 223 then [83, 83]
      else if 224 \<le> n \<and> n \<le> 254 \<and> n \<noteq> 247 then [n - 32]
      else if n = 255 then [376]
      else if n < 256 then [n]
      else if n = 305 then [73]
      else if n = 383 then [83]
      else tabla n)"

definition upper :: "(nat \<Rightarrow> nat list) \<Rightarrow> str \<Rightarrow> str" where
  "upper tabla s = concat (map (upper_cp tabla) s)"

text \<open>
  Indexing \<^verbatim>\<open>s[i]\<close> with a non-negative index raises \<^verbatim>\<open>IndexError\<close> when
  \<^verbatim>\<open>i\<close> is not below \<^verbatim>\<open>len(s)\<close>. It is the only operation of the module's
  classifiers that can raise.
\<close>

datatype error = IndexError

definition getitem :: "str \<Rightarrow> nat \<Rightarrow> error + nat" where
  "getitem s i = (if i < length s then Inr (s ! i) else Inl IndexError)"

definition bind :: "error + 'a \<Rightarrow> ('a \<Rightarrow> error + 'b) \<Rightarrow> error + 'b" where
  "bind m f = (case m of Inl e \<Rightarrow> Inl e | Inr v \<Rightarrow> f v)"

section \<open>The line classifier\<close>

text \<open>
  \<^verbatim>\<open>
  def es_separador(linea):
      if len(linea) < 10:
          return False
      if linea[6] != '*':
          return False
      contenido = linea[7:].strip().replace(" ", "")
      return len(contenido) >= 5 and len(set(contenido)) == 1
  \<close>
\<close>

definition es_separador :: "str \<Rightarrow> error + bool" where
  "es_separador linea =
     (if length linea < 10 then Inr False
      else bind (getitem linea 6) (\<lambda>c.
        if c \<noteq> code CHR ''*'' then Inr False
        else (let contenido = replace (code CHR '' '') [] (strip (drop 7 linea))
              in Inr (length contenido \<ge> 5 \<and> card (set contenido) = 1))))"

text \<open>
  \<^verbatim>\<open>re.match(r"^\*\*[A-Za-z]\*$", s)\<close>: the pattern is anchored at both ends, and
  \<^verbatim>\<open>$\<close> also matches just before a line feed that ends the string.
\<close>

definition ascii_letter :: "nat \<Rightarrow> bool" where
  "ascii_letter n = ((65 \<le> n \<and> n \<le> 90) \<or> (97 \<le> n \<and> n \<le> 122))"

definition re_match_etiqueta :: "str \<Rightarrow> bool" where
  "re_match_etiqueta s =
     (case s of
        [a, b, c, d] \<Rightarrow> a = code CHR ''*'' \<and> b = code CHR ''*'' \<and> ascii_letter c \<and> d = code CHR ''*''
      | [a, b, c, d, e] \<Rightarrow>
          a = code CHR ''*'' \<and> b = code CHR ''*'' \<and> ascii_letter c \<and> d = code CHR ''*'' \<and> e = 10
      | _ \<Rightarrow> False)"

text \<open>
  \<^verbatim>\<open>
  def es_patron_etiqueta(linea):
      return bool(re.match(r"^\*\*[A-Za-z]\*$", linea.strip()))
  \<close>
\<close>

definition es_patron_etiqueta :: "str \<Rightarrow> bool" where
  "es_patron_etiqueta linea = re_match_etiqueta (strip linea)"

text \<open>
  The comment test common to the three line scans, \<^verbatim>\<open>len(linea) > 6 and linea[6] == '*'\<close>.
  Python's \<^verbatim>\<open>and\<close> evaluates its right operand only when the left one holds.
\<close>

definition comentada :: "str \<Rightarrow> error + bool" where
  "comentada linea =
     (if length linea > 6 then bind (getitem linea 6) (\<lambda>c. Inr (c = code CHR ''*''))
      else Inr False)"

text \<open>
  \<^verbatim>\<open>
  def obtener_lineas_comentadas(lineas):
      comentadas = []
      for i, linea in enumerate(lineas):
          if (len(linea) > 6 and linea[6] == '*') and not es_separador(linea):
              comentadas.append((i + 1, linea.rstrip()))
      return comentadas
  \<close>
  The loop is a recursion over the remaining lines that carries the index \<open>i\<close> of
  \<^verbatim>\<open>enumerate\<close> and the list built so far.
\<close>

fun obtener_lineas_comentadas_bucle ::
  "nat \<Rightarrow> str list \<Rightarrow> (nat \<times> str) list \<Rightarrow> error + (nat \<times> str) list" where
  "obtener_lineas_comentadas_bucle i [] comentadas = Inr comentadas"
| "obtener_lineas_comentadas_bucle i (linea # resto) comentadas =
     bind (bind (comentada linea) (\<lambda>b.
             if b then bind (es_separador linea) (\<lambda>sep. Inr (\<not> sep)) else Inr False))
       (\<lambda>cond. obtener_lineas_comentadas_bucle (i + 1) resto
          (if cond then comentadas @ [(i + 1, rstrip linea)] else comentadas))"

definition obtener_lineas_comentadas :: "str list \<Rightarrow> error + (nat \<times> str) list" where
  "obtener_lineas_comentadas lineas = obtener_lineas_comentadas_bucle 0 lineas []"

text \<open>
  \<^verbatim>\<open>
  def obtener_num_lineas_comentadas(lineas):
      total_lineas = 0
      for i, linea in enumerate(lineas):
          if len(linea) > 6 and linea[6] == '*':
              total_lineas += 1
      return total_lineas
  \<close>
\<close>

fun obtener_num_lineas_comentadas_bucle :: "str list \<Rightarrow> nat \<Rightarrow> error + nat" where
  "obtener_num_lineas_comentadas_bucle [] total_lineas = Inr total_lineas"
| "obtener_num_lineas_comentadas_bucle (linea # resto) total_lineas =
     bind (comentada linea)
       (\<lambda>cond. obtener_num_lineas_comentadas_bucle resto
          (if cond then total_lineas + 1 else total_lineas))"

definition obtener_num_lineas_comentadas :: "str list \<Rightarrow> error + nat" where
  "obtener_num_lineas_comentadas lineas = obtener_num_lineas_comentadas_bucle lineas 0"

text \<open>
  \<^verbatim>\<open>
  def obtener_lineas_comentadas_con_display(lineas):
      resultado = []
      for i, linea in enumerate(lineas):
          if len(linea) > 6 and linea[6] == '*' and 'DISPLAY' in linea.upper():
              resultado.append((i + 1, linea.rstrip()))
      return resultado
  \<close>
  \<^verbatim>\<open>x in s\<close> on strings is the contiguous-substring test, \<^const>\<open>sublist\<close>. The
  first argument is the part of the upper-case table that \<open>upper\<close> takes as a
  parameter; the source function has the one argument \<^verbatim>\<open>lineas\<close>.
\<close>

fun obtener_lineas_comentadas_con_display_bucle ::
  "(nat \<Rightarrow> nat list) \<Rightarrow> nat \<Rightarrow> str list \<Rightarrow> (nat \<times> str) list \<Rightarrow>
     error + (nat \<times> str) list" where
  "obtener_lineas_comentadas_con_display_bucle tabla i [] resultado = Inr resultado"
| "obtener_lineas_comentadas_con_display_bucle tabla i (linea # resto) resultado =
     bind (bind (comentada linea) (\<lambda>b.
             if b then Inr (sublist (codepoints ''DISPLAY'') (upper tabla linea)) else Inr False))
       (\<lambda>cond. obtener_lineas_comentadas_con_display_bucle tabla (i + 1) resto
          (if cond then resultado @ [(i + 1, rstrip linea)] else resultado))"

definition obtener_lineas_comentadas_con_display ::
  "(nat \<Rightarrow> nat list) \<Rightarrow> str list \<Rightarrow> error + (nat \<times> str) list" where
  "obtener_lineas_comentadas_con_display tabla lineas =
     obtener_lineas_comentadas_con_display_bucle tabla 0 lineas []"

section \<open>The block extractor\<close>

text \<open>
  \<^verbatim>\<open>
  def ext_bloq_comentados_patron_etiqueta(texto):
      lineas = texto.splitlines()
      bloques = []
      bloque_actual = []
      dentro_bloque = False
      for linea in lineas:
          if es_patron_etiqueta(linea):
              if dentro_bloque:
                  bloque_actual.append(linea)
                  bloques.append("\n".join(bloque_actual))
                  bloque_actual = []
                  dentro_bloque = False
              else:
                  bloque_actual.append(linea)
                  dentro_bloque = True
          elif dentro_bloque:
              bloque_actual.append(linea)
      return bloques
  \<close>
  The three local variables are the state of the loop; \<open>paso\<close> is one turn of its
  body and \<open>recorrer\<close> the whole loop from a given state.
\<close>

record estado =
  bloques :: "str list"
  bloque_actual :: "str list"
  dentro_bloque :: bool

definition inicial :: estado where
  "inicial = \<lparr>bloques = [], bloque_actual = [], dentro_bloque = False\<rparr>"

definition paso :: "estado \<Rightarrow> str \<Rightarrow> estado" where
  "paso st linea =
     (if es_patron_etiqueta linea then
        (if dentro_bloque st then
           \<lparr>bloques = bloques st @ [join_nl (bloque_actual st @ [linea])],
            bloque_actual = [],
            dentro_bloque = False\<rparr>
         else
           \<lparr>bloques = bloques st,
            bloque_actual = bloque_actual st @ [linea],
            dentro_bloque = True\<rparr>)
      else if dentro_bloque st then
        \<lparr>bloques = bloques st,
         bloque_actual = bloque_actual st @ [linea],
         dentro_bloque = True\<rparr>
      else st)"

fun recorrer :: "estado \<Rightarrow> str list \<Rightarrow> estado" where
  "recorrer st [] = st"
| "recorrer st (linea # resto) = recorrer (paso st linea) resto"

definition extraer_bloques :: "str list \<Rightarrow> str list" where
  "extraer_bloques lineas = bloques (recorrer inicial lineas)"

definition ext_bloq_comentados_patron_etiqueta :: "str \<Rightarrow> str list" where
  "ext_bloq_comentados_patron_etiqueta texto = extraer_bloques (splitlines texto)"

section \<open>Reference definitions for the refinement claims\<close>

text \<open>
  The next three definitions are not code of the module. They restate, in the words of
  the claims, what a scan is said to compute, so that the loops above can be compared with
  them.
\<close>

text \<open>
  Claim C8 speaks of a token that occurs in a line as a case-insensitive substring. Two
  characters are the same letter up to case when they are equal, or are the upper-case and
  the lower-case form of one letter \<^verbatim>\<open>A\<close> to \<^verbatim>\<open>Z\<close> (32 code points apart). The
  token occurs in the line when some contiguous part of the line matches it character by
  character in that sense.
\<close>

definition spec_same_letter :: "nat \<Rightarrow> nat \<Rightarrow> bool" where
  "spec_same_letter a b \<longleftrightarrow>
     a = b \<or> (ascii_letter a \<and> ascii_letter b \<and> (a + 32 = b \<or> b + 32 = a))"

definition spec_occurs_ignoring_case :: "str \<Rightarrow> str \<Rightarrow> bool" where
  "spec_occurs_ignoring_case token s \<longleftrightarrow> (\<exists>w. sublist w s \<and> list_all2 spec_same_letter w token)"

text \<open>
  Claim C5 speaks of one block per matched pair of an opening and a closing label line, in
  order: skip to the first label line (the opening one), take the lines up to the next
  label line (the closing one), emit the two label lines and what lies between them joined
  by line feeds, and go on behind the closing line; an opening line with no closing line
  after it gives nothing.
\<close>

function spec_block_pairs :: "str list \<Rightarrow> str list" where
  "spec_block_pairs lineas =
     (case dropWhile (\<lambda>l. \<not> es_patron_etiqueta l) lineas of
        [] \<Rightarrow> []
      | apertura # resto \<Rightarrow>
          (case dropWhile (\<lambda>l. \<not> es_patron_etiqueta l) resto of
             [] \<Rightarrow> []
           | cierre # siguientes \<Rightarrow>
               join_nl (apertura # takeWhile (\<lambda>l. \<not> es_patron_etiqueta l) resto @ [cierre])
                 # spec_block_pairs siguientes))"
  by pat_completeness auto
termination
proof (relation "measure length")
  show "wf (measure length)" by simp
next
  fix lineas apertura resto cierre siguientes :: "str list" and x21 x22 x21a x22a
  show "dropWhile (\<lambda>l. \<not> es_patron_etiqueta l) lineas = x21 # x22 \<Longrightarrow>
       dropWhile (\<lambda>l. \<not> es_patron_etiqueta l) x22 = x21a # x22a \<Longrightarrow>
       (x22a, lineas) \<in> measure length"
  proof -
    assume a: "dropWhile (\<lambda>l. \<not> es_patron_etiqueta l) lineas = x21 # x22"
      and b: "dropWhile (\<lambda>l. \<not> es_patron_etiqueta l) x22 = x21a # x22a"
    have "length (dropWhile (\<lambda>l. \<not> es_patron_etiqueta l) lineas) \<le> length lineas"
      by (rule length_dropWhile_le)
    moreover have "length (dropWhile (\<lambda>l. \<not> es_patron_etiqueta l) x22) \<le> length x22"
      by (rule length_dropWhile_le)
    ultimately show ?thesis using a b by simp
  qed
qed

declare spec_block_pairs.simps [simp del]

section \<open>Facts about the string built-ins\<close>

lemma replace_empty_filter: "replace old [] s = filter (\<lambda>c. c \<noteq> old) s"
  by (induction s) (simp_all add: replace_def)

lemma rstrip_last: "rstrip s \<noteq> [] \<Longrightarrow> \<not> isspace (last (rstrip s))"
proof -
  assume ne: "rstrip s \<noteq> []"
  then have "dropWhile isspace (rev s) \<noteq> []"
    by (simp add: rstrip_def)
  then have "\<not> isspace (hd (dropWhile isspace (rev s)))"
    by (rule hd_dropWhile)
  with ne show ?thesis
    by (simp add: rstrip_def last_rev)
qed

lemma strip_last: "strip s \<noteq> [] \<Longrightarrow> \<not> isspace (last (strip s))"
  unfolding strip_def by (rule rstrip_last)

lemma isspace_LF: "isspace 10"
  by (simp add: isspace_def)

lemmas strip_eval = strip_def lstrip_def rstrip_def isspace_def codepoints_def

section \<open>The separator test\<close>

lemma comentada_eq: "comentada l = Inr (length l > 6 \<and> l ! 6 = code CHR ''*'')"
  by (simp add: comentada_def getitem_def bind_def)

lemma es_separador_eq:
  "es_separador l =
     Inr (10 \<le> length l \<and> l ! 6 = code CHR ''*'' \<and>
          5 \<le> length (filter (\<lambda>c. c \<noteq> code CHR '' '') (strip (drop 7 l))) \<and>
          card (set (filter (\<lambda>c. c \<noteq> code CHR '' '') (strip (drop 7 l)))) = 1)"
  by (simp add: es_separador_def getitem_def bind_def replace_empty_filter Let_def)

text \<open>
  Claim C2, as stated, lets the separator test remove \<^emph>\<open>all\<close> interior whitespace
  before it counts the characters. The code removes the space character only
  (\<^verbatim>\<open>replace(" ", "")\<close>). On the 14-character line made of six spaces, \<^verbatim>\<open>*AAA\<close>, a
  TAB and \<^verbatim>\<open>AAA\<close>, the length is at least 10, offset 6 holds the marker, and the rest
  with its whitespace removed is six times \<^verbatim>\<open>A\<close>, so the claim's condition holds;
  yet \<open>es_separador\<close> returns \<^verbatim>\<open>False\<close>, because the TAB stays and is a second
  distinct character.
\<close>

theorem es_separador_tab_counterexample:
  "es_separador (codepoints ''      *AAA'' @ [9] @ codepoints ''AAA'') = Inr False \<and>
   \<not> length (codepoints ''      *AAA'' @ [9] @ codepoints ''AAA'') < 10 \<and>
   (codepoints ''      *AAA'' @ [9] @ codepoints ''AAA'') ! 6 = code CHR ''*'' \<and>
   filter (\<lambda>c. \<not> isspace c)
     (strip (drop 7 (codepoints ''      *AAA'' @ [9] @ codepoints ''AAA''))) = codepoints ''AAAAAA'' \<and>
   5 \<le> length (codepoints ''AAAAAA'') \<and> card (set (codepoints ''AAAAAA'')) = 1"
  by (simp add: es_separador_eq strip_eval card_insert_if)

text \<open>
  Claim C2, amended: for every string \<open>s\<close>, \<open>es_separador s\<close> raises nothing and
  returns \<^verbatim>\<open>False\<close> when \<open>s\<close> has fewer than 10 characters, \<^verbatim>\<open>False\<close> when the
  character at offset 6 is not \<^verbatim>\<open>*\<close>, and otherwise \<^verbatim>\<open>True\<close> exactly when the
  substring from offset 7 to the end, trimmed of surrounding whitespace and then with every
  space character (U+0020) removed, has length at least 5 and exactly one distinct
  character. Other interior whitespace, such as a TAB, is kept and counts as a character.
  The line of six spaces and \<^verbatim>\<open>* AAAAAAAAAA\<close> is a separator; the one with \<^verbatim>\<open>* AAAA\<close>
  is not.
\<close>

theorem es_separador_spaces_removed:
  "es_separador s =
     Inr (\<not> length s < 10 \<and> s ! 6 = code CHR ''*'' \<and>
          5 \<le> length (filter (\<lambda>c. c \<noteq> code CHR '' '') (strip (drop 7 s))) \<and>
          card (set (filter (\<lambda>c. c \<noteq> code CHR '' '') (strip (drop 7 s)))) = 1) \<and>
   es_separador (codepoints ''      * AAAAAAAAAA'') = Inr True \<and>
   es_separador (codepoints ''      * AAAA'') = Inr False"
proof -
  have general: "es_separador s =
     Inr (\<not> length s < 10 \<and> s ! 6 = code CHR ''*'' \<and>
          5 \<le> length (filter (\<lambda>c. c \<noteq> code CHR '' '') (strip (drop 7 s))) \<and>
          card (set (filter (\<lambda>c. c \<noteq> code CHR '' '') (strip (drop 7 s)))) = 1)"
    by (simp add: es_separador_eq not_less)
  have yes: "es_separador (codepoints ''      * AAAAAAAAAA'') = Inr True"
    by (simp add: es_separador_eq strip_eval card_insert_if)
  have no: "es_separador (codepoints ''      * AAAA'') = Inr False"
    by (simp add: es_separador_eq strip_eval card_insert_if)
  from general yes no show ?thesis by simp
qed

theorem es_separador_spaces_removed_witness:
  "es_separador (codepoints ''      *= = = = ='') = Inr True \<and>
   es_separador (codepoints ''     *======'') = Inr False"
  using es_separador_spaces_removed [of "codepoints ''      *= = = = =''"]
    es_separador_spaces_removed [of "codepoints ''     *======''"]
  by (simp add: strip_eval card_insert_if)

section \<open>The label pattern\<close>

lemma re_match_etiqueta_iff:
  "re_match_etiqueta t \<longleftrightarrow>
     (\<exists>c. ascii_letter c \<and>
        (t = [code CHR ''*'', code CHR ''*'', c, code CHR ''*''] \<or>
         t = [code CHR ''*'', code CHR ''*'', c, code CHR ''*'', 10]))"
  by (auto simp: re_match_etiqueta_def split: list.splits)

lemma es_patron_etiqueta_iff:
  "es_patron_etiqueta s \<longleftrightarrow>
     (\<exists>c. ascii_letter c \<and> strip s = [code CHR ''*'', code CHR ''*'', c, code CHR ''*''])"
proof -
  have "strip s \<noteq> [code CHR ''*'', code CHR ''*'', c, code CHR ''*'', 10]" for c
  proof
    assume eq: "strip s = [code CHR ''*'', code CHR ''*'', c, code CHR ''*'', 10]"
    then have "strip s \<noteq> []" by simp
    then have "\<not> isspace (last (strip s))" by (rule strip_last)
    with eq show False by (simp add: isspace_LF)
  qed
  then show ?thesis
    by (auto simp: es_patron_etiqueta_def re_match_etiqueta_iff)
qed

lemmas etiqueta_eval = es_patron_etiqueta_def re_match_etiqueta_def strip_eval ascii_letter_def

text \<open>
  Claim C6: for every string \<open>s\<close>, \<open>es_patron_etiqueta s\<close> holds exactly when the
  trimmed \<open>s\<close> is the four characters marker, marker, one letter \<^verbatim>\<open>A\<close> to \<^verbatim>\<open>Z\<close> of
  either case, marker, with nothing before or after. The alphabetic character of the
  claim is read as the pattern's class \<^verbatim>\<open>[A-Za-z]\<close>, the letters of a label in
  this format. (The trailing line feed that \<^verbatim>\<open>$\<close> would tolerate cannot be there
  after \<^verbatim>\<open>strip()\<close>.) \<^verbatim>\<open>**Z*\<close> is a label; \<^verbatim>\<open>**ZZ*\<close>, \<^verbatim>\<open>*Z*\<close> and
  \<^verbatim>\<open>**1*\<close> are not.
\<close>

theorem es_patron_etiqueta_exact:
  "(es_patron_etiqueta s \<longleftrightarrow>
      (\<exists>c. ascii_letter c \<and> strip s = [code CHR ''*'', code CHR ''*'', c, code CHR ''*''])) \<and>
   es_patron_etiqueta (codepoints ''**Z*'') \<and>
   \<not> es_patron_etiqueta (codepoints ''**ZZ*'') \<and>
   \<not> es_patron_etiqueta (codepoints ''*Z*'') \<and>
   \<not> es_patron_etiqueta (codepoints ''**1*'')"
proof -
  have examples: "es_patron_etiqueta (codepoints ''**Z*'') \<and>
      \<not> es_patron_etiqueta (codepoints ''**ZZ*'') \<and>
      \<not> es_patron_etiqueta (codepoints ''*Z*'') \<and> \<not> es_patron_etiqueta (codepoints ''**1*'')"
    by (simp add: etiqueta_eval)
  with es_patron_etiqueta_iff [of s] show ?thesis by blast
qed

theorem es_patron_etiqueta_exact_witness:
  "es_patron_etiqueta (codepoints ''  **q* '') \<and>
   strip (codepoints ''  **q* '') = codepoints ''**q*'' \<and> ascii_letter (code CHR ''q'')"
  using es_patron_etiqueta_exact [of "codepoints ''  **q* ''"]
  by (simp add: strip_eval ascii_letter_def)

section \<open>The three line scans\<close>

text \<open>
  Each loop is characterised by a closed form over \<^const>\<open>enumerate\<close>, which pairs every
  line with its 0-based index as Python's \<^verbatim>\<open>enumerate\<close> does.
\<close>

lemma obtener_lineas_comentadas_bucle_eq:
  "obtener_lineas_comentadas_bucle i ls acc =
     Inr (acc @ map (\<lambda>(k, l). (k + 1, rstrip l))
            (filter (\<lambda>(k, l). 6 < length l \<and> l ! 6 = code CHR ''*'' \<and> es_separador l = Inr False)
               (enumerate i ls)))"
proof (induction ls arbitrary: i acc)
  case Nil
  show ?case by simp
next
  case (Cons l ls)
  show ?case
    by (simp add: Cons.IH comentada_eq es_separador_eq bind_def)
qed

lemma obtener_num_lineas_comentadas_bucle_eq:
  "obtener_num_lineas_comentadas_bucle ls n =
     Inr (n + length (filter (\<lambda>l. 6 < length l \<and> l ! 6 = code CHR ''*'') ls))"
proof (induction ls arbitrary: n)
  case Nil
  show ?case by simp
next
  case (Cons l ls)
  show ?case
    by (simp add: Cons.IH comentada_eq bind_def)
qed

lemma obtener_lineas_comentadas_con_display_bucle_eq:
  "obtener_lineas_comentadas_con_display_bucle tabla i ls acc =
     Inr (acc @ map (\<lambda>(k, l). (k + 1, rstrip l))
            (filter (\<lambda>(k, l). 6 < length l \<and> l ! 6 = code CHR ''*'' \<and>
                               sublist (codepoints ''DISPLAY'') (upper tabla l))
               (enumerate i ls)))"
proof (induction ls arbitrary: i acc)
  case Nil
  show ?case by simp
next
  case (Cons l ls)
  show ?case
    by (simp add: Cons.IH comentada_eq bind_def)
qed

lemma recogidas_length:
  "length (map (\<lambda>(k, l). (k + 1, g l)) (filter (\<lambda>(k, l). Q l) (enumerate i ls)))
     = length (filter Q ls)"
  by (induction ls arbitrary: i) simp_all

lemma recogidas_fst:
  "map fst (map (\<lambda>(k, l). (k + 1, g l)) (filter (\<lambda>(k, l). Q l) (enumerate i ls)))
     = map Suc (map fst (filter (\<lambda>(k, l). Q l) (enumerate i ls)))"
  by (induction ls arbitrary: i) simp_all

lemma recogidas_sorted:
  "sorted_wrt (<) (map fst (map (\<lambda>(k, l). (k + 1, g l)) (filter (\<lambda>(k, l). Q l) (enumerate i ls))))"
proof -
  have "sorted_wrt (\<lambda>p q. fst p < fst q) (enumerate i ls)"
    using sorted_wrt_map [of "(<)" fst "enumerate i ls"]
    by simp
  then have "sorted_wrt (\<lambda>p q. fst p < fst q) (filter (\<lambda>(k, l). Q l) (enumerate i ls))"
    by (rule sorted_wrt_filter)
  then show ?thesis
    unfolding recogidas_fst by (simp add: sorted_wrt_map)
qed

lemma recogidas_mem:
  "(n, c) \<in> set (map (\<lambda>(k, l). (k + 1, g l)) (filter (\<lambda>(k, l). Q l) (enumerate 0 ls))) \<longleftrightarrow>
     1 \<le> n \<and> n \<le> length ls \<and> Q (ls ! (n - 1)) \<and> c = g (ls ! (n - 1))"
proof
  assume "(n, c) \<in> set (map (\<lambda>(k, l). (k + 1, g l)) (filter (\<lambda>(k, l). Q l) (enumerate 0 ls)))"
  then obtain k l where kl: "(k, l) \<in> set (enumerate 0 ls)" "Q l" "n = k + 1" "c = g l"
    by auto
  from kl(1) have "k < length ls" "ls ! k = l"
    by (simp_all add: in_set_enumerate_eq)
  with kl show "1 \<le> n \<and> n \<le> length ls \<and> Q (ls ! (n - 1)) \<and> c = g (ls ! (n - 1))"
    by simp
next
  assume a: "1 \<le> n \<and> n \<le> length ls \<and> Q (ls ! (n - 1)) \<and> c = g (ls ! (n - 1))"
  then have "n - 1 < length ls"
    by arith
  then have "(n - 1, ls ! (n - 1)) \<in> set (enumerate 0 ls)"
    by (simp add: in_set_enumerate_eq)
  with a show "(n, c) \<in> set (map (\<lambda>(k, l). (k + 1, g l)) (filter (\<lambda>(k, l). Q l) (enumerate 0 ls)))"
    by (auto simp: image_iff intro!: exI [of _ "n - 1"] exI [of _ "ls ! (n - 1)"])
qed

lemma recogidas_fst_mem:
  "n \<in> set (map fst (map (\<lambda>(k, l). (k + 1, g l)) (filter (\<lambda>(k, l). Q l) (enumerate 0 ls)))) \<longleftrightarrow>
     1 \<le> n \<and> n \<le> length ls \<and> Q (ls ! (n - 1))"
proof -
  have "n \<in> set (map fst (map (\<lambda>(k, l). (k + 1, g l)) (filter (\<lambda>(k, l). Q l) (enumerate 0 ls)))) \<longleftrightarrow>
      (\<exists>c. (n, c) \<in> set (map (\<lambda>(k, l). (k + 1, g l)) (filter (\<lambda>(k, l). Q l) (enumerate 0 ls))))"
    by force
  then show ?thesis
    unfolding recogidas_mem by blast
qed

lemma obtener_lineas_comentadas_eq:
  "obtener_lineas_comentadas lineas =
     Inr (map (\<lambda>(k, l). (k + 1, rstrip l))
            (filter (\<lambda>(k, l). 6 < length l \<and> l ! 6 = code CHR ''*'' \<and> es_separador l = Inr False)
               (enumerate 0 lineas)))"
  by (simp add: obtener_lineas_comentadas_def obtener_lineas_comentadas_bucle_eq)

lemma obtener_lineas_comentadas_con_display_eq:
  "obtener_lineas_comentadas_con_display tabla lineas =
     Inr (map (\<lambda>(k, l). (k + 1, rstrip l))
            (filter (\<lambda>(k, l). 6 < length l \<and> l ! 6 = code CHR ''*'' \<and>
                               sublist (codepoints ''DISPLAY'') (upper tabla l))
               (enumerate 0 lineas)))"
  by (simp add: obtener_lineas_comentadas_con_display_def
      obtener_lineas_comentadas_con_display_bucle_eq)

lemma obtener_num_lineas_comentadas_eq:
  "obtener_num_lineas_comentadas lineas =
     Inr (length (filter (\<lambda>l. 6 < length l \<and> l ! 6 = code CHR ''*'') lineas))"
  by (simp add: obtener_num_lineas_comentadas_def obtener_num_lineas_comentadas_bucle_eq)

text \<open>
  Claim C7: \<open>obtener_lineas_comentadas\<close> keeps a line exactly when its length is greater
  than 6, its character at offset 6 is \<^verbatim>\<open>*\<close> and \<open>es_separador\<close> returns
  \<^verbatim>\<open>False\<close> for it; each kept line is paired with its 1-based line number, and the
  pairs come in ascending line order. The first conjunct is the whole result; the second
  restates it as strictly ascending numbers and as the membership condition on the 1-based
  number \<open>n\<close>.
\<close>

theorem obtener_lineas_comentadas_selects:
  "obtener_lineas_comentadas lineas =
     Inr (map (\<lambda>(k, l). (k + 1, rstrip l))
            (filter (\<lambda>(k, l). 6 < length l \<and> l ! 6 = code CHR ''*'' \<and> es_separador l = Inr False)
               (enumerate 0 lineas))) \<and>
   (\<exists>r. obtener_lineas_comentadas lineas = Inr r \<and>
        sorted_wrt (<) (map fst r) \<and>
        (\<forall>n. n \<in> set (map fst r) \<longleftrightarrow>
           1 \<le> n \<and> n \<le> length lineas \<and>
           6 < length (lineas ! (n - 1)) \<and> lineas ! (n - 1) ! 6 = code CHR ''*'' \<and>
           es_separador (lineas ! (n - 1)) = Inr False))"
proof -
  let ?Q = "\<lambda>l. 6 < length l \<and> l ! 6 = code CHR ''*'' \<and> es_separador l = Inr False"
  let ?r = "map (\<lambda>(k, l). (k + 1, rstrip l)) (filter (\<lambda>(k, l). ?Q l) (enumerate 0 lineas))"
  have eq: "obtener_lineas_comentadas lineas = Inr ?r"
    by (rule obtener_lineas_comentadas_eq)
  have asc: "sorted_wrt (<) (map fst ?r)"
    by (rule recogidas_sorted)
  have mem: "n \<in> set (map fst ?r) \<longleftrightarrow> 1 \<le> n \<and> n \<le> length lineas \<and> ?Q (lineas ! (n - 1))" for n
    by (rule recogidas_fst_mem)
  from eq asc mem show ?thesis
    by blast
qed

lemma es_separador_examples:
  "es_separador (codepoints ''      *abc'') = Inr False"
  "es_separador (codepoints ''      *abc  '') = Inr False"
  "es_separador (codepoints ''      ***********'') = Inr True"
  "es_separador (codepoints ''abc'') = Inr False"
  "es_separador (codepoints ''      *'') = Inr False"
  by (simp_all add: es_separador_eq strip_eval card_insert_if)

theorem obtener_lineas_comentadas_selects_witness:
  "obtener_lineas_comentadas
     [codepoints ''      *abc'', codepoints ''      ***********'', codepoints ''abc'',
      codepoints ''      *'']
     = Inr [(1, codepoints ''      *abc''), (4, codepoints ''      *'')]"
  using obtener_lineas_comentadas_selects
    [of "[codepoints ''      *abc'', codepoints ''      ***********'', codepoints ''abc'',
          codepoints ''      *'']"]
  apply (simp add: es_separador_examples)
  apply (simp add: rstrip_def isspace_def codepoints_def)
  done

lemma length_filter_conj_le:
  "length (filter (\<lambda>x. P x \<and> Q x) xs) \<le> length (filter P xs)"
  by (induction xs) simp_all

text \<open>
  Claim C4: for every line sequence the count of \<open>obtener_num_lineas_comentadas\<close> is at
  least the length of the list of \<open>obtener_lineas_comentadas\<close>. The count takes every
  line longer than 6 with \<^verbatim>\<open>*\<close> at offset 6, separators included; the list takes
  those of them that are no separators.
\<close>

theorem count_at_least_collected:
  "\<exists>n r. obtener_num_lineas_comentadas lineas = Inr n \<and>
         obtener_lineas_comentadas lineas = Inr r \<and>
         length r \<le> n \<and>
         n = length (filter (\<lambda>l. 6 < length l \<and> l ! 6 = code CHR ''*'') lineas) \<and>
         length r = length (filter (\<lambda>l. 6 < length l \<and> l ! 6 = code CHR ''*'' \<and>
                                        es_separador l = Inr False) lineas)"
proof -
  let ?P = "\<lambda>l. 6 < length l \<and> l ! 6 = code CHR ''*''"
  let ?Q = "\<lambda>l. 6 < length l \<and> l ! 6 = code CHR ''*'' \<and> es_separador l = Inr False"
  let ?r = "map (\<lambda>(k, l). (k + 1, rstrip l)) (filter (\<lambda>(k, l). ?Q l) (enumerate 0 lineas))"
  have n: "obtener_num_lineas_comentadas lineas = Inr (length (filter ?P lineas))"
    by (rule obtener_num_lineas_comentadas_eq)
  have r: "obtener_lineas_comentadas lineas = Inr ?r"
    by (rule obtener_lineas_comentadas_eq)
  have len: "length ?r = length (filter ?Q lineas)"
    by (rule recogidas_length)
  have "length (filter (\<lambda>l. ?P l \<and> es_separador l = Inr False) lineas) \<le> length (filter ?P lineas)"
    by (rule length_filter_conj_le)
  then have le: "length (filter ?Q lineas) \<le> length (filter ?P lineas)"
    by simp
  from n r len le show ?thesis
    by (intro exI [of _ "length (filter ?P lineas)"] exI [of _ ?r]) simp
qed

theorem count_at_least_collected_witness:
  "obtener_num_lineas_comentadas
     [codepoints ''      *abc'', codepoints ''      ***********'', codepoints ''abc''] = Inr 2 \<and>
   obtener_lineas_comentadas
     [codepoints ''      *abc'', codepoints ''      ***********'', codepoints ''abc'']
     = Inr [(1, codepoints ''      *abc'')]"
  using count_at_least_collected
    [of "[codepoints ''      *abc'', codepoints ''      ***********'', codepoints ''abc'']"]
  by (simp add: obtener_num_lineas_comentadas_eq obtener_lineas_comentadas_eq es_separador_examples)
    (simp add: rstrip_def isspace_def codepoints_def)?

lemma rstrip_decomp: "l = rstrip l @ rev (takeWhile isspace (rev l))"
proof -
  have "rev (takeWhile isspace (rev l) @ dropWhile isspace (rev l)) = l"
    by simp
  then have "rev (dropWhile isspace (rev l)) @ rev (takeWhile isspace (rev l)) = l"
    by (simp only: rev_append)
  then show ?thesis
    by (simp only: rstrip_def)
qed

lemma rstrip_suffix_spaces: "\<exists>ws. l = rstrip l @ ws \<and> (\<forall>c\<in>set ws. isspace c)"
proof (intro exI conjI)
  show "l = rstrip l @ rev (takeWhile isspace (rev l))"
    by (rule rstrip_decomp)
  show "\<forall>c\<in>set (rev (takeWhile isspace (rev l))). isspace c"
    by (auto dest: set_takeWhileD)
qed

lemma display_in_upper_examples:
  "sublist (codepoints ''DISPLAY'') (upper tabla (codepoints ''      * display  ''))"
  "sublist (codepoints ''DISPLAY'') (upper tabla (codepoints ''      * DISPLAY X''))"
  "sublist (codepoints ''DISPLAY'') (upper tabla (codepoints ''      * Display x''))"
  "\<not> sublist (codepoints ''DISPLAY'') (upper tabla (codepoints ''      * dis play''))"
  by (simp_all add: sublist_Cons_right upper_def upper_cp_def codepoints_def)

text \<open>
  Claim C3, as stated, has both collecting scans emit the line with only its trailing line
  terminators stripped, other trailing whitespace preserved. The code calls
  \<^verbatim>\<open>linea.rstrip()\<close>, which strips every kind of trailing whitespace. The two lines
  below end in two spaces and hold no line terminator, so stripping line terminators would
  leave them as they are; the scans emit them without the two spaces. (The lines are plain
  ASCII, so the value given to the table parameter of the DISPLAY scan plays no part.)
\<close>

theorem collected_content_counterexample:
  "obtener_lineas_comentadas [codepoints ''      *abc  ''] = Inr [(1, codepoints ''      *abc'')] \<and>
   obtener_lineas_comentadas_con_display (\<lambda>n. [n]) [codepoints ''      * display  '']
     = Inr [(1, codepoints ''      * display'')] \<and>
   rev (dropWhile is_linebreak (rev (codepoints ''      *abc  ''))) = codepoints ''      *abc  '' \<and>
   rev (dropWhile is_linebreak (rev (codepoints ''      * display  ''))) = codepoints ''      * display  ''"
  by (simp add: obtener_lineas_comentadas_eq obtener_lineas_comentadas_con_display_eq
      es_separador_examples display_in_upper_examples)
    (simp add: rstrip_def isspace_def is_linebreak_def codepoints_def)?

text \<open>
  Claim C3, amended: every pair emitted by \<open>obtener_lineas_comentadas\<close> and by
  \<open>obtener_lineas_comentadas_con_display\<close> carries the 1-based number of an input line
  and that line with all its trailing whitespace stripped (spaces and tabs as well as line
  terminators): the content is \<open>rstrip\<close> of the line, the line is that content followed
  by whitespace only, and the content does not end in whitespace. Leading and interior
  characters are untouched.
\<close>

theorem collected_content_rstrip:
  "(\<exists>r. obtener_lineas_comentadas lineas = Inr r \<and>
        (\<forall>p\<in>set r. 1 \<le> fst p \<and> fst p \<le> length lineas \<and>
                    snd p = rstrip (lineas ! (fst p - 1)))) \<and>
   (\<exists>r. obtener_lineas_comentadas_con_display tabla lineas = Inr r \<and>
        (\<forall>p\<in>set r. 1 \<le> fst p \<and> fst p \<le> length lineas \<and>
                    snd p = rstrip (lineas ! (fst p - 1)))) \<and>
   (\<exists>ws. l = rstrip l @ ws \<and> (\<forall>c\<in>set ws. isspace c)) \<and>
   (rstrip l = [] \<or> \<not> isspace (last (rstrip l)))"
proof -
  have a: "\<forall>p\<in>set (map (\<lambda>(k, l). (k + 1, rstrip l)) (filter (\<lambda>(k, l). Q l) (enumerate 0 lineas))).
      1 \<le> fst p \<and> fst p \<le> length lineas \<and> snd p = rstrip (lineas ! (fst p - 1))" for Q
  proof
    fix p
    assume "p \<in> set (map (\<lambda>(k, l). (k + 1, rstrip l)) (filter (\<lambda>(k, l). Q l) (enumerate 0 lineas)))"
    then have "(fst p, snd p) \<in> set (map (\<lambda>(k, l). (k + 1, rstrip l))
        (filter (\<lambda>(k, l). Q l) (enumerate 0 lineas)))"
      by simp
    then show "1 \<le> fst p \<and> fst p \<le> length lineas \<and> snd p = rstrip (lineas ! (fst p - 1))"
      unfolding recogidas_mem by simp
  qed
  have c1: "\<exists>r. obtener_lineas_comentadas lineas = Inr r \<and>
        (\<forall>p\<in>set r. 1 \<le> fst p \<and> fst p \<le> length lineas \<and>
                    snd p = rstrip (lineas ! (fst p - 1)))"
    unfolding obtener_lineas_comentadas_eq using a by blast
  have c2: "\<exists>r. obtener_lineas_comentadas_con_display tabla lineas = Inr r \<and>
        (\<forall>p\<in>set r. 1 \<le> fst p \<and> fst p \<le> length lineas \<and>
                    snd p = rstrip (lineas ! (fst p - 1)))"
    unfolding obtener_lineas_comentadas_con_display_eq using a by blast
  have c3: "rstrip l = [] \<or> \<not> isspace (last (rstrip l))"
    using rstrip_last [of l] by blast
  from c1 c2 rstrip_suffix_spaces [of l] c3 show ?thesis
    by blast
qed

theorem collected_content_rstrip_witness:
  "obtener_lineas_comentadas [codepoints ''code'', codepoints ''      *note '' @ [9, 13, 10]]
     = Inr [(2, codepoints ''      *note'')] \<and>
   obtener_lineas_comentadas_con_display (\<lambda>n. [n]) [codepoints ''      * Display x'' @ [10]]
     = Inr [(1, codepoints ''      * Display x'')] \<and>
   rstrip (codepoints ''  a b '' @ [9, 10]) = codepoints ''  a b''"
  using collected_content_rstrip
    [where lineas = "[codepoints ''code'', codepoints ''      *note '' @ [9, 13, 10]]"
       and tabla = "\<lambda>n. [n]" and l = "codepoints ''  a b '' @ [9, 10]"]
    collected_content_rstrip
    [where lineas = "[codepoints ''      * Display x'' @ [10]]" and tabla = "\<lambda>n. [n]" and l = "[]"]
  by (simp add: obtener_lineas_comentadas_eq obtener_lineas_comentadas_con_display_eq
      es_separador_eq strip_eval card_insert_if sublist_Cons_right upper_def upper_cp_def codepoints_def)

text \<open>
  Claim C9: no classifier raises. \<open>es_separador\<close> and the three scans, whose source
  reads \<^verbatim>\<open>linea[6]\<close>, return a value (\<open>Inr\<close>) for every input (and, for the
  DISPLAY scan, every upper-case table): on a line shorter
  than 7 characters the bare read would raise \<^verbatim>\<open>IndexError\<close>, but each read stands
  behind a length test, and the line is answered with \<^verbatim>\<open>False\<close> or left out of the
  result. \<open>es_patron_etiqueta\<close> and \<open>ext_bloq_comentados_patron_etiqueta\<close> call
  nothing that can raise on a string, so they are plain total functions; on the empty
  string they answer \<^verbatim>\<open>False\<close> and the empty list.
\<close>

theorem classifiers_never_raise:
  "(\<exists>b. es_separador s = Inr b) \<and>
   (\<exists>r. obtener_lineas_comentadas lineas = Inr r) \<and>
   (\<exists>n. obtener_num_lineas_comentadas lineas = Inr n) \<and>
   (\<exists>r. obtener_lineas_comentadas_con_display tabla lineas = Inr r) \<and>
   (length s < 7 \<longrightarrow>
      getitem s 6 = Inl IndexError \<and>
      es_separador s = Inr False \<and>
      obtener_lineas_comentadas [s] = Inr [] \<and>
      obtener_num_lineas_comentadas [s] = Inr 0 \<and>
      obtener_lineas_comentadas_con_display tabla [s] = Inr []) \<and>
   es_separador [] = Inr False \<and>
   \<not> es_patron_etiqueta [] \<and>
   ext_bloq_comentados_patron_etiqueta [] = []"
proof -
  have short: "length s < 7 \<longrightarrow>
      getitem s 6 = Inl IndexError \<and>
      es_separador s = Inr False \<and>
      obtener_lineas_comentadas [s] = Inr [] \<and>
      obtener_num_lineas_comentadas [s] = Inr 0 \<and>
      obtener_lineas_comentadas_con_display tabla [s] = Inr []"
    by (simp add: getitem_def es_separador_def obtener_lineas_comentadas_eq
        obtener_num_lineas_comentadas_eq obtener_lineas_comentadas_con_display_eq)
  have empty: "es_separador [] = Inr False \<and> \<not> es_patron_etiqueta [] \<and>
      ext_bloq_comentados_patron_etiqueta [] = []"
    by (simp add: es_separador_def etiqueta_eval ext_bloq_comentados_patron_etiqueta_def
        extraer_bloques_def inicial_def)
  show ?thesis
    using short empty
    by (simp add: es_separador_eq obtener_lineas_comentadas_eq
        obtener_num_lineas_comentadas_eq obtener_lineas_comentadas_con_display_eq)
qed

theorem classifiers_never_raise_witness:
  "length (codepoints ''abc'') < 7 \<and> getitem (codepoints ''abc'') 6 = Inl IndexError \<and>
   es_separador (codepoints ''abc'') = Inr False \<and>
   obtener_lineas_comentadas [codepoints ''abc''] = Inr [] \<and>
   obtener_num_lineas_comentadas [codepoints ''abc''] = Inr 0 \<and>
   obtener_lineas_comentadas_con_display (\<lambda>n. [n]) [codepoints ''abc''] = Inr []"
  using classifiers_never_raise [of "codepoints ''abc''" "[]" "\<lambda>n. [n]"]
  by (simp add: codepoints_def)

section \<open>The scan for DISPLAY\<close>

lemma upper_append: "upper tabla (xs @ ys) = upper tabla xs @ upper tabla ys"
  by (simp add: upper_def)

lemma upper_cp_cases:
  "n < 256 \<Longrightarrow> (\<exists>m. upper_cp tabla n = [m]) \<or> upper_cp tabla n = [83, 83]"
  by (simp add: upper_cp_def)

lemma same_letter_upper_cp:
  assumes "spec_same_letter a b" "65 \<le> b" "b \<le> 90"
  shows "upper_cp tabla a = [b]"
proof (cases "a = b")
  case True
  with assms(2,3) show ?thesis
    by (simp add: upper_cp_def)
next
  case False
  with assms have "a = b + 32"
    by (auto simp: spec_same_letter_def ascii_letter_def)
  with assms(2,3) show ?thesis
    by (simp add: upper_cp_def)
qed

lemma upper_cp_same_letter:
  assumes "upper_cp tabla a = [b]" "a < 256" "65 \<le> b" "b \<le> 90"
  shows "spec_same_letter a b"
proof (cases "97 \<le> a \<and> a \<le> 122")
  case True
  with assms have "b + 32 = a"
    by (simp add: upper_cp_def)
  with True assms(3,4) show ?thesis
    by (simp add: spec_same_letter_def ascii_letter_def)
next
  case False
  with assms have "a = b"
    by (simp add: upper_cp_def split: if_splits)
  then show ?thesis by (simp add: spec_same_letter_def)
qed

lemma prefix_upper_step:
  assumes "prefix (x # q) (upper tabla l)" "\<forall>c\<in>set l. c < 256"
    "x \<noteq> 83 \<or> (q \<noteq> [] \<and> hd q \<noteq> 83)"
  shows "\<exists>c l'. l = c # l' \<and> c < 256 \<and> (\<forall>c\<in>set l'. c < 256) \<and>
           upper_cp tabla c = [x] \<and> prefix q (upper tabla l')"
proof (cases l)
  case Nil
  with assms(1) show ?thesis by (simp add: upper_def)
next
  case (Cons c l')
  with assms(2) have small: "c < 256" "\<forall>c\<in>set l'. c < 256" by simp_all
  from upper_cp_cases [OF small(1), of tabla] show ?thesis
  proof
    assume "\<exists>m. upper_cp tabla c = [m]"
    then obtain m where "upper_cp tabla c = [m]" ..
    with assms(1) Cons small show ?thesis
      by (simp add: upper_def)
  next
    assume ss: "upper_cp tabla c = [83, 83]"
    with assms(1) Cons have "x = 83" "prefix q (83 # upper tabla l')"
      by (simp_all add: upper_def)
    with assms(3) have "q \<noteq> []" "hd q \<noteq> 83" by simp_all
    with \<open>prefix q (83 # upper tabla l')\<close> have False
      by (cases q) simp_all
    then show ?thesis ..
  qed
qed

lemma codepoints_DISPLAY: "codepoints ''DISPLAY'' = [68, 73, 83, 80, 76, 65, 89]"
  by (simp add: codepoints_def)

lemma prefix_DISPLAY_upper:
  assumes "prefix (codepoints ''DISPLAY'') (upper tabla l)" "\<forall>c\<in>set l. c < 256"
  shows "\<exists>w rest. l = w @ rest \<and> list_all2 spec_same_letter w (codepoints ''DISPLAY'')"
proof -
  from assms(1) have p0: "prefix [68, 73, 83, 80, 76, 65, 89] (upper tabla l)"
    by (simp add: codepoints_DISPLAY)
  from prefix_upper_step [OF p0 assms(2)] obtain c1 l1 where
    1: "l = c1 # l1" "c1 < 256" "\<forall>c\<in>set l1. c < 256" "upper_cp tabla c1 = [68]"
      "prefix [73, 83, 80, 76, 65, 89] (upper tabla l1)"
    by auto
  from prefix_upper_step [OF 1(5) 1(3)] obtain c2 l2 where
    2: "l1 = c2 # l2" "c2 < 256" "\<forall>c\<in>set l2. c < 256" "upper_cp tabla c2 = [73]"
      "prefix [83, 80, 76, 65, 89] (upper tabla l2)"
    by auto
  from prefix_upper_step [OF 2(5) 2(3)] obtain c3 l3 where
    3: "l2 = c3 # l3" "c3 < 256" "\<forall>c\<in>set l3. c < 256" "upper_cp tabla c3 = [83]"
      "prefix [80, 76, 65, 89] (upper tabla l3)"
    by auto
  from prefix_upper_step [OF 3(5) 3(3)] obtain c4 l4 where
    4: "l3 = c4 # l4" "c4 < 256" "\<forall>c\<in>set l4. c < 256" "upper_cp tabla c4 = [80]"
      "prefix [76, 65, 89] (upper tabla l4)"
    by auto
  from prefix_upper_step [OF 4(5) 4(3)] obtain c5 l5 where
    5: "l4 = c5 # l5" "c5 < 256" "\<forall>c\<in>set l5. c < 256" "upper_cp tabla c5 = [76]"
      "prefix [65, 89] (upper tabla l5)"
    by auto
  from prefix_upper_step [OF 5(5) 5(3)] obtain c6 l6 where
    6: "l5 = c6 # l6" "c6 < 256" "\<forall>c\<in>set l6. c < 256" "upper_cp tabla c6 = [65]"
      "prefix [89] (upper tabla l6)"
    by auto
  from prefix_upper_step [OF 6(5) 6(3)] obtain c7 l7 where
    7: "l6 = c7 # l7" "c7 < 256" "upper_cp tabla c7 = [89]"
    by auto
  have s1: "spec_same_letter c1 68" using 1(4) 1(2) by (rule upper_cp_same_letter) simp_all
  have s2: "spec_same_letter c2 73" using 2(4) 2(2) by (rule upper_cp_same_letter) simp_all
  have s3: "spec_same_letter c3 83" using 3(4) 3(2) by (rule upper_cp_same_letter) simp_all
  have s4: "spec_same_letter c4 80" using 4(4) 4(2) by (rule upper_cp_same_letter) simp_all
  have s5: "spec_same_letter c5 76" using 5(4) 5(2) by (rule upper_cp_same_letter) simp_all
  have s6: "spec_same_letter c6 65" using 6(4) 6(2) by (rule upper_cp_same_letter) simp_all
  have s7: "spec_same_letter c7 89" using 7(3) 7(2) by (rule upper_cp_same_letter) simp_all
  have "l = [c1, c2, c3, c4, c5, c6, c7] @ l7"
    using 1(1) 2(1) 3(1) 4(1) 5(1) 6(1) 7(1) by simp
  moreover have "list_all2 spec_same_letter [c1, c2, c3, c4, c5, c6, c7] (codepoints ''DISPLAY'')"
    using s1 s2 s3 s4 s5 s6 s7 by (simp add: codepoints_DISPLAY)
  ultimately show ?thesis by blast
qed

lemma sublist_DISPLAY_upper:
  "sublist (codepoints ''DISPLAY'') (upper tabla l) \<Longrightarrow> \<forall>c\<in>set l. c < 256 \<Longrightarrow>
   spec_occurs_ignoring_case (codepoints ''DISPLAY'') l"
proof (induction l)
  case Nil
  then show ?case by (simp add: upper_def codepoints_def)
next
  case (Cons c l)
  from Cons.prems(2) have small: "c < 256" "\<forall>c\<in>set l. c < 256" by simp_all
  have "prefix (codepoints ''DISPLAY'') (upper tabla (c # l)) \<or>
      sublist (codepoints ''DISPLAY'') (upper tabla l)"
    using upper_cp_cases [OF small(1), of tabla]
  proof
    assume "\<exists>m. upper_cp tabla c = [m]"
    then obtain m where "upper_cp tabla c = [m]" ..
    then have "upper tabla (c # l) = m # upper tabla l" by (simp add: upper_def)
    with Cons.prems(1) show ?thesis
      by (simp add: sublist_Cons_right)
  next
    assume "upper_cp tabla c = [83, 83]"
    then have "upper tabla (c # l) = 83 # 83 # upper tabla l" by (simp add: upper_def)
    with Cons.prems(1) show ?thesis
      by (simp add: sublist_Cons_right codepoints_DISPLAY)
  qed
  then show ?case
  proof
    assume "prefix (codepoints ''DISPLAY'') (upper tabla (c # l))"
    then obtain w rest where "c # l = w @ rest"
      "list_all2 spec_same_letter w (codepoints ''DISPLAY'')"
      using prefix_DISPLAY_upper Cons.prems(2) by blast
    then show ?thesis
      unfolding spec_occurs_ignoring_case_def by (metis sublist_append_rightI)
  next
    assume "sublist (codepoints ''DISPLAY'') (upper tabla l)"
    then have "spec_occurs_ignoring_case (codepoints ''DISPLAY'') l"
      using small(2) by (rule Cons.IH)
    then obtain w where "sublist w l" "list_all2 spec_same_letter w (codepoints ''DISPLAY'')"
      unfolding spec_occurs_ignoring_case_def by blast
    then show ?thesis
      unfolding spec_occurs_ignoring_case_def by (metis sublist_Cons_right)
  qed
qed

lemma matches_DISPLAY:
  assumes "list_all2 spec_same_letter w (codepoints ''DISPLAY'')"
  obtains c1 c2 c3 c4 c5 c6 c7 where "w = [c1, c2, c3, c4, c5, c6, c7]"
    "spec_same_letter c1 68" "spec_same_letter c2 73" "spec_same_letter c3 83"
    "spec_same_letter c4 80" "spec_same_letter c5 76" "spec_same_letter c6 65"
    "spec_same_letter c7 89"
  using assms by (auto simp: codepoints_DISPLAY list_all2_Cons2)

lemma upper_DISPLAY:
  assumes "list_all2 spec_same_letter w (codepoints ''DISPLAY'')"
  shows "upper tabla w = codepoints ''DISPLAY''"
proof -
  from assms obtain c1 c2 c3 c4 c5 c6 c7 where w: "w = [c1, c2, c3, c4, c5, c6, c7]"
    and s: "spec_same_letter c1 68" "spec_same_letter c2 73" "spec_same_letter c3 83"
      "spec_same_letter c4 80" "spec_same_letter c5 76" "spec_same_letter c6 65"
      "spec_same_letter c7 89"
    by (rule matches_DISPLAY)
  have "upper_cp tabla c1 = [68]" using s(1) by (rule same_letter_upper_cp) simp_all
  moreover have "upper_cp tabla c2 = [73]" using s(2) by (rule same_letter_upper_cp) simp_all
  moreover have "upper_cp tabla c3 = [83]" using s(3) by (rule same_letter_upper_cp) simp_all
  moreover have "upper_cp tabla c4 = [80]" using s(4) by (rule same_letter_upper_cp) simp_all
  moreover have "upper_cp tabla c5 = [76]" using s(5) by (rule same_letter_upper_cp) simp_all
  moreover have "upper_cp tabla c6 = [65]" using s(6) by (rule same_letter_upper_cp) simp_all
  moreover have "upper_cp tabla c7 = [89]" using s(7) by (rule same_letter_upper_cp) simp_all
  ultimately show ?thesis
    by (simp add: w upper_def codepoints_DISPLAY)
qed

lemma occurs_DISPLAY_upper:
  assumes "spec_occurs_ignoring_case (codepoints ''DISPLAY'') l"
  shows "sublist (codepoints ''DISPLAY'') (upper tabla l)"
proof -
  from assms obtain w ps ss where "l = ps @ w @ ss"
    "list_all2 spec_same_letter w (codepoints ''DISPLAY'')"
    unfolding spec_occurs_ignoring_case_def sublist_def by blast
  then have "upper tabla l = upper tabla ps @ codepoints ''DISPLAY'' @ upper tabla ss"
    by (simp add: upper_append upper_DISPLAY)
  then show ?thesis
    unfolding sublist_def by blast
qed

lemma DISPLAY_in_upper_iff:
  "\<forall>c\<in>set l. c < 256 \<Longrightarrow>
   sublist (codepoints ''DISPLAY'') (upper tabla l) \<longleftrightarrow>
     spec_occurs_ignoring_case (codepoints ''DISPLAY'') l"
  using sublist_DISPLAY_upper occurs_DISPLAY_upper by blast

text \<open>
  Two lines with a character beyond U+00FF: \<^verbatim>\<open>d\<close>, DOTLESS I, \<^verbatim>\<open>splay\<close> and
  \<^verbatim>\<open>di\<close>, LONG S, \<^verbatim>\<open>play\<close>, each behind six spaces, the marker and a space.
  Their upper-case form holds \<^verbatim>\<open>DISPLAY\<close>, whatever the rest of the table is; the
  token does not occur in them up to case.
\<close>

lemma dotless_in_upper:
  "sublist (codepoints ''DISPLAY'')
     (upper tabla (codepoints ''      * d'' @ [305] @ codepoints ''splay''))"
  "sublist (codepoints ''DISPLAY'')
     (upper tabla (codepoints ''      * di'' @ [383] @ codepoints ''play''))"
  by (simp_all add: sublist_Cons_right upper_def upper_cp_def codepoints_def)

lemma dotless_no_occurrence:
  "\<not> spec_occurs_ignoring_case (codepoints ''DISPLAY'')
       (codepoints ''      * d'' @ [305] @ codepoints ''splay'')"
proof
  let ?L = "codepoints ''      * d'' @ [305] @ codepoints ''splay''"
  assume "spec_occurs_ignoring_case (codepoints ''DISPLAY'') ?L"
  then obtain w where w: "sublist w ?L" "list_all2 spec_same_letter w (codepoints ''DISPLAY'')"
    unfolding spec_occurs_ignoring_case_def by blast
  from w(2) obtain c1 c2 c3 c4 c5 c6 c7 where "w = [c1, c2, c3, c4, c5, c6, c7]"
    "spec_same_letter c2 73"
    by (rule matches_DISPLAY)
  then have "c2 \<in> set w" "c2 = 73 \<or> c2 = 105"
    by (auto simp: spec_same_letter_def ascii_letter_def)
  moreover from w(1) have "set w \<subseteq> set ?L"
    by (rule set_mono_sublist)
  ultimately have "73 \<in> set ?L \<or> 105 \<in> set ?L"
    by blast
  then show False
    by (simp add: codepoints_def)
qed

text \<open>
  Claim C8, as stated, keeps a comment line exactly when the token occurs in it as a
  case-insensitive substring. The code tests \<^verbatim>\<open>'DISPLAY' in linea.upper()\<close>, and
  \<^verbatim>\<open>upper()\<close> turns DOTLESS I (U+0131) into \<^verbatim>\<open>I\<close>. The line below, six
  spaces, the marker, a space and \<^verbatim>\<open>d\<close>, DOTLESS I, \<^verbatim>\<open>splay\<close>, is longer than 6
  and has the marker at offset 6; the token does not occur in it up to case, yet the scan
  returns it. No character of the line has its upper-case form in the part of the table
  that is a parameter, so the parameter is given a value only to close the statement.
\<close>

theorem display_dotless_counterexample:
  "obtener_lineas_comentadas_con_display (\<lambda>n. [n])
     [codepoints ''      * d'' @ [305] @ codepoints ''splay'']
     = Inr [(1, codepoints ''      * d'' @ [305] @ codepoints ''splay'')] \<and>
   6 < length (codepoints ''      * d'' @ [305] @ codepoints ''splay'') \<and>
   (codepoints ''      * d'' @ [305] @ codepoints ''splay'') ! 6 = code CHR ''*'' \<and>
   \<not> spec_occurs_ignoring_case (codepoints ''DISPLAY'')
       (codepoints ''      * d'' @ [305] @ codepoints ''splay'')"
proof -
  have "obtener_lineas_comentadas_con_display (\<lambda>n. [n])
     [codepoints ''      * d'' @ [305] @ codepoints ''splay'']
     = Inr [(1, codepoints ''      * d'' @ [305] @ codepoints ''splay'')]"
    by (simp add: obtener_lineas_comentadas_con_display_eq dotless_in_upper [simplified])
      (simp add: rstrip_def isspace_def codepoints_def)
  moreover have "6 < length (codepoints ''      * d'' @ [305] @ codepoints ''splay'') \<and>
      (codepoints ''      * d'' @ [305] @ codepoints ''splay'') ! 6 = code CHR ''*''"
    by (simp add: codepoints_def)
  ultimately show ?thesis
    using dotless_no_occurrence by blast
qed

text \<open>
  Claim C8, amended: \<open>obtener_lineas_comentadas_con_display\<close> keeps a line exactly when
  its length is greater than 6, its character at offset 6 is \<^verbatim>\<open>*\<close> and
  \<^verbatim>\<open>DISPLAY\<close> is a substring of the upper-cased line (\<^verbatim>\<open>upper()\<close> of the whole
  line, not of the part behind the marker); the kept lines come in input order with their
  1-based numbers. Every case-insensitive occurrence of the token is such a match, and
  for a line whose characters all lie in U+0000 to U+00FF the two are the same. Beyond
  that range a character whose upper-case form is a letter of the token matches too:
  DOTLESS I (U+0131) counts as \<^verbatim>\<open>I\<close> and LONG S (U+017F) as \<^verbatim>\<open>S\<close>. Comment lines
  holding \<^verbatim>\<open>display\<close>, \<^verbatim>\<open>DISPLAY\<close> or \<^verbatim>\<open>Display\<close> are all kept; a line without
  the marker at offset 6, or with the token broken by a space, is not. All of it holds
  for every value of the table's parameter.
\<close>

theorem display_lines_upper_substring:
  "obtener_lineas_comentadas_con_display tabla lineas =
     Inr (map (\<lambda>(k, l). (k + 1, rstrip l))
            (filter (\<lambda>(k, l). 6 < length l \<and> l ! 6 = code CHR ''*'' \<and>
                               sublist (codepoints ''DISPLAY'') (upper tabla l))
               (enumerate 0 lineas))) \<and>
   (\<exists>r. obtener_lineas_comentadas_con_display tabla lineas = Inr r \<and>
        sorted_wrt (<) (map fst r) \<and>
        (\<forall>n. n \<in> set (map fst r) \<longleftrightarrow>
           1 \<le> n \<and> n \<le> length lineas \<and>
           6 < length (lineas ! (n - 1)) \<and> lineas ! (n - 1) ! 6 = code CHR ''*'' \<and>
           sublist (codepoints ''DISPLAY'') (upper tabla (lineas ! (n - 1))))) \<and>
   (spec_occurs_ignoring_case (codepoints ''DISPLAY'') l \<longrightarrow>
      sublist (codepoints ''DISPLAY'') (upper tabla l)) \<and>
   ((\<forall>c\<in>set l. c < 256) \<longrightarrow>
      (sublist (codepoints ''DISPLAY'') (upper tabla l) \<longleftrightarrow>
       spec_occurs_ignoring_case (codepoints ''DISPLAY'') l)) \<and>
   obtener_lineas_comentadas_con_display tabla
     [codepoints ''      * display x'', codepoints ''      * DISPLAY x'',
      codepoints ''      * Display x'', codepoints ''        DISPLAY x'',
      codepoints ''      * dis play'']
     = Inr [(1, codepoints ''      * display x''), (2, codepoints ''      * DISPLAY x''),
            (3, codepoints ''      * Display x'')] \<and>
   obtener_lineas_comentadas_con_display tabla
     [codepoints ''      * d'' @ [305] @ codepoints ''splay'',
      codepoints ''      * di'' @ [383] @ codepoints ''play'']
     = Inr [(1, codepoints ''      * d'' @ [305] @ codepoints ''splay''),
            (2, codepoints ''      * di'' @ [383] @ codepoints ''play'')]"
proof -
  let ?Q = "\<lambda>l. 6 < length l \<and> l ! 6 = code CHR ''*'' \<and>
      sublist (codepoints ''DISPLAY'') (upper tabla l)"
  let ?r = "map (\<lambda>(k, l). (k + 1, rstrip l)) (filter (\<lambda>(k, l). ?Q l) (enumerate 0 lineas))"
  have eq: "obtener_lineas_comentadas_con_display tabla lineas = Inr ?r"
    by (rule obtener_lineas_comentadas_con_display_eq)
  have asc: "sorted_wrt (<) (map fst ?r)"
    by (rule recogidas_sorted)
  have mem: "n \<in> set (map fst ?r) \<longleftrightarrow> 1 \<le> n \<and> n \<le> length lineas \<and> ?Q (lineas ! (n - 1))" for n
    by (rule recogidas_fst_mem)
  have always: "spec_occurs_ignoring_case (codepoints ''DISPLAY'') l \<longrightarrow>
      sublist (codepoints ''DISPLAY'') (upper tabla l)"
    using occurs_DISPLAY_upper by blast
  have latin: "(\<forall>c\<in>set l. c < 256) \<longrightarrow>
      (sublist (codepoints ''DISPLAY'') (upper tabla l) \<longleftrightarrow>
       spec_occurs_ignoring_case (codepoints ''DISPLAY'') l)"
    using DISPLAY_in_upper_iff by blast
  have in_upper: "sublist (codepoints ''DISPLAY'') (upper tabla (codepoints ''      * display x''))"
    "sublist (codepoints ''DISPLAY'') (upper tabla (codepoints ''      * DISPLAY x''))"
    "sublist (codepoints ''DISPLAY'') (upper tabla (codepoints ''      * Display x''))"
    "\<not> sublist (codepoints ''DISPLAY'') (upper tabla (codepoints ''      * dis play''))"
    by (simp_all add: sublist_Cons_right upper_def upper_cp_def codepoints_def)
  have example: "obtener_lineas_comentadas_con_display tabla
     [codepoints ''      * display x'', codepoints ''      * DISPLAY x'',
      codepoints ''      * Display x'', codepoints ''        DISPLAY x'',
      codepoints ''      * dis play'']
     = Inr [(1, codepoints ''      * display x''), (2, codepoints ''      * DISPLAY x''),
            (3, codepoints ''      * Display x'')]"
    by (simp add: obtener_lineas_comentadas_con_display_eq in_upper)
      (simp add: rstrip_def isspace_def codepoints_def)
  have beyond: "obtener_lineas_comentadas_con_display tabla
     [codepoints ''      * d'' @ [305] @ codepoints ''splay'',
      codepoints ''      * di'' @ [383] @ codepoints ''play'']
     = Inr [(1, codepoints ''      * d'' @ [305] @ codepoints ''splay''),
            (2, codepoints ''      * di'' @ [383] @ codepoints ''play'')]"
    by (simp add: obtener_lineas_comentadas_con_display_eq dotless_in_upper [simplified])
      (simp add: rstrip_def isspace_def codepoints_def)
  from eq asc mem always latin example beyond show ?thesis
    by blast
qed

theorem display_lines_upper_substring_witness:
  "spec_occurs_ignoring_case (codepoints ''DISPLAY'') (codepoints ''      * no dIsPlAy'') \<and>
   sublist (codepoints ''DISPLAY'') (upper (\<lambda>n. [n]) (codepoints ''      * no dIsPlAy'')) \<and>
   obtener_lineas_comentadas_con_display (\<lambda>n. [n])
     [codepoints ''DISPLAY'', codepoints ''      * no dIsPlAy'']
     = Inr [(2, codepoints ''      * no dIsPlAy'')]"
proof -
  note inst = display_lines_upper_substring
    [where tabla = "\<lambda>n. [n]" and l = "codepoints ''      * no dIsPlAy''"
       and lineas = "[codepoints ''DISPLAY'', codepoints ''      * no dIsPlAy'']"]
  have small: "\<forall>c\<in>set (codepoints ''      * no dIsPlAy''). c < 256"
    by (simp add: codepoints_def)
  have up: "sublist (codepoints ''DISPLAY'') (upper (\<lambda>n. [n]) (codepoints ''      * no dIsPlAy''))"
    by (simp add: sublist_Cons_right upper_def upper_cp_def codepoints_def)
  from inst small up have occ:
    "spec_occurs_ignoring_case (codepoints ''DISPLAY'') (codepoints ''      * no dIsPlAy'')"
    by blast
  have short: "codepoints ''DISPLAY'' ! 6 \<noteq> code CHR ''*''"
    by (simp add: codepoints_def)
  from inst have "obtener_lineas_comentadas_con_display (\<lambda>n. [n])
     [codepoints ''DISPLAY'', codepoints ''      * no dIsPlAy''] =
     Inr (map (\<lambda>(k, l). (k + 1, rstrip l))
            (filter (\<lambda>(k, l). 6 < length l \<and> l ! 6 = code CHR ''*'' \<and>
                               sublist (codepoints ''DISPLAY'') (upper (\<lambda>n. [n]) l))
               (enumerate 0 [codepoints ''DISPLAY'', codepoints ''      * no dIsPlAy''])))"
    by blast
  then have "obtener_lineas_comentadas_con_display (\<lambda>n. [n])
     [codepoints ''DISPLAY'', codepoints ''      * no dIsPlAy'']
     = Inr [(2, codepoints ''      * no dIsPlAy'')]"
    by (simp add: up short) (simp add: rstrip_def isspace_def codepoints_def)
  with occ up show ?thesis
    by blast
qed

section \<open>The block extractor: the loop\<close>

lemma recorrer_append: "recorrer st (xs @ ys) = recorrer (recorrer st xs) ys"
  by (induction xs arbitrary: st) simp_all

lemma recorrer_snoc: "recorrer st (xs @ [l]) = paso (recorrer st xs) l"
  by (simp add: recorrer_append)

lemma recorrer_fuera_sin_etiquetas:
  "\<forall>l\<in>set ls. \<not> es_patron_etiqueta l \<Longrightarrow> \<not> dentro_bloque st \<Longrightarrow> recorrer st ls = st"
  by (induction ls arbitrary: st) (simp_all add: paso_def)

lemma recorrer_dentro_sin_etiquetas:
  "\<forall>l\<in>set ls. \<not> es_patron_etiqueta l \<Longrightarrow>
   recorrer \<lparr>bloques = bs, bloque_actual = buf, dentro_bloque = True\<rparr> ls =
     \<lparr>bloques = bs, bloque_actual = buf @ ls, dentro_bloque = True\<rparr>"
  by (induction ls arbitrary: buf) (simp_all add: paso_def)

lemma recorrer_estado_prefijo:
  "recorrer \<lparr>bloques = bs, bloque_actual = buf, dentro_bloque = d\<rparr> ls =
     \<lparr>bloques = bs @ bloques (recorrer \<lparr>bloques = [], bloque_actual = buf, dentro_bloque = d\<rparr> ls),
      bloque_actual =
        bloque_actual (recorrer \<lparr>bloques = [], bloque_actual = buf, dentro_bloque = d\<rparr> ls),
      dentro_bloque =
        dentro_bloque (recorrer \<lparr>bloques = [], bloque_actual = buf, dentro_bloque = d\<rparr> ls)\<rparr>"
proof (induction ls rule: rev_induct)
  case Nil
  show ?case by simp
next
  case (snoc l ls)
  show ?case
    unfolding recorrer_snoc by (subst snoc.IH) (simp add: paso_def)
qed

lemma recorrer_bloques_prefijo:
  "bloques (recorrer \<lparr>bloques = bs, bloque_actual = buf, dentro_bloque = d\<rparr> ls) =
     bs @ bloques (recorrer \<lparr>bloques = [], bloque_actual = buf, dentro_bloque = d\<rparr> ls)"
  by (subst recorrer_estado_prefijo) simp

lemma recorrer_par:
  assumes "\<forall>l\<in>set pre. \<not> es_patron_etiqueta l" "es_patron_etiqueta ap"
    "\<forall>l\<in>set mid. \<not> es_patron_etiqueta l" "es_patron_etiqueta ci"
  shows "recorrer \<lparr>bloques = bs, bloque_actual = [], dentro_bloque = False\<rparr>
           (pre @ ap # mid @ ci # rest) =
         recorrer \<lparr>bloques = bs @ [join_nl (ap # mid @ [ci])], bloque_actual = [],
                   dentro_bloque = False\<rparr> rest"
proof -
  let ?s0 = "\<lparr>bloques = bs, bloque_actual = [], dentro_bloque = False\<rparr>"
  have 1: "recorrer ?s0 pre = ?s0"
    using assms(1) by (simp add: recorrer_fuera_sin_etiquetas)
  have 2: "paso ?s0 ap = \<lparr>bloques = bs, bloque_actual = [ap], dentro_bloque = True\<rparr>"
    using assms(2) by (simp add: paso_def)
  have 3: "recorrer \<lparr>bloques = bs, bloque_actual = [ap], dentro_bloque = True\<rparr> mid =
      \<lparr>bloques = bs, bloque_actual = ap # mid, dentro_bloque = True\<rparr>"
    using assms(3) by (simp add: recorrer_dentro_sin_etiquetas)
  have 4: "paso \<lparr>bloques = bs, bloque_actual = ap # mid, dentro_bloque = True\<rparr> ci =
      \<lparr>bloques = bs @ [join_nl (ap # mid @ [ci])], bloque_actual = [], dentro_bloque = False\<rparr>"
    using assms(4) by (simp add: paso_def)
  show ?thesis
    by (simp add: recorrer_append 1 2 3 4)
qed

lemma extraer_bloques_sin_etiquetas:
  "\<forall>l\<in>set ls. \<not> es_patron_etiqueta l \<Longrightarrow> extraer_bloques ls = []"
  by (simp add: extraer_bloques_def inicial_def recorrer_fuera_sin_etiquetas)

lemma extraer_bloques_sin_cierre:
  assumes "\<forall>l\<in>set pre. \<not> es_patron_etiqueta l" "es_patron_etiqueta ap"
    "\<forall>l\<in>set mid. \<not> es_patron_etiqueta l"
  shows "extraer_bloques (pre @ ap # mid) = []"
proof -
  have "recorrer inicial pre = inicial"
    using assms(1) by (simp add: recorrer_fuera_sin_etiquetas inicial_def)
  moreover have "paso inicial ap = \<lparr>bloques = [], bloque_actual = [ap], dentro_bloque = True\<rparr>"
    using assms(2) by (simp add: paso_def inicial_def)
  ultimately show ?thesis
    using assms(3)
    by (simp add: extraer_bloques_def recorrer_append recorrer_dentro_sin_etiquetas)
qed

lemma extraer_bloques_par:
  assumes "\<forall>l\<in>set pre. \<not> es_patron_etiqueta l" "es_patron_etiqueta ap"
    "\<forall>l\<in>set mid. \<not> es_patron_etiqueta l" "es_patron_etiqueta ci"
  shows "extraer_bloques (pre @ ap # mid @ ci # rest) =
           join_nl (ap # mid @ [ci]) # extraer_bloques rest"
proof -
  have "extraer_bloques (pre @ ap # mid @ ci # rest) =
      bloques (recorrer \<lparr>bloques = [] @ [join_nl (ap # mid @ [ci])], bloque_actual = [],
                   dentro_bloque = False\<rparr> rest)"
    unfolding extraer_bloques_def inicial_def using assms by (simp only: recorrer_par)
  also have "\<dots> = [join_nl (ap # mid @ [ci])] @ extraer_bloques rest"
    unfolding extraer_bloques_def inicial_def
    by (simp only: append_Nil recorrer_bloques_prefijo [of "[join_nl (ap # mid @ [ci])]"])
  finally show ?thesis by simp
qed

lemma extraer_bloques_refines_spec: "extraer_bloques ls = spec_block_pairs ls"
proof (induction ls rule: spec_block_pairs.induct)
  case (1 lineas)
  let ?N = "\<lambda>l. \<not> es_patron_etiqueta l"
  have pre: "\<forall>l\<in>set (takeWhile ?N xs). \<not> es_patron_etiqueta l" for xs
    by (auto dest: set_takeWhileD)
  show ?case
  proof (cases "dropWhile ?N lineas")
    case Nil
    then have "\<forall>l\<in>set lineas. \<not> es_patron_etiqueta l"
      by simp
    then have "extraer_bloques lineas = []"
      by (rule extraer_bloques_sin_etiquetas)
    then show ?thesis
      unfolding spec_block_pairs.simps [of lineas] Nil by simp
  next
    case (Cons ap resto)
    then have ap: "es_patron_etiqueta ap"
      using hd_dropWhile [of ?N lineas] by simp
    have l1: "lineas = takeWhile ?N lineas @ ap # resto"
      using takeWhile_dropWhile_id [of ?N lineas] Cons by simp
    show ?thesis
    proof (cases "dropWhile ?N resto")
      case Nil
      then have mid: "\<forall>l\<in>set resto. \<not> es_patron_etiqueta l"
        by simp
      have "extraer_bloques (takeWhile ?N lineas @ ap # resto) = []"
        using pre ap mid by (rule extraer_bloques_sin_cierre)
      with l1 have "extraer_bloques lineas = []" by simp
      then show ?thesis
        unfolding spec_block_pairs.simps [of lineas] Cons list.case Nil by simp
    next
      case c2: (Cons ci sig)
      then have ci: "es_patron_etiqueta ci"
        using hd_dropWhile [of ?N resto] by simp
      have l2: "resto = takeWhile ?N resto @ ci # sig"
        using takeWhile_dropWhile_id [of ?N resto] c2 by simp
      have "extraer_bloques (takeWhile ?N lineas @ ap # takeWhile ?N resto @ ci # sig) =
          join_nl (ap # takeWhile ?N resto @ [ci]) # extraer_bloques sig"
        using pre ap pre ci by (rule extraer_bloques_par)
      with l1 l2 have "extraer_bloques lineas =
          join_nl (ap # takeWhile ?N resto @ [ci]) # extraer_bloques sig"
        by simp
      also have "extraer_bloques sig = spec_block_pairs sig"
        using Cons c2 by (rule "1.IH")
      finally show ?thesis
        unfolding spec_block_pairs.simps [of lineas] Cons list.case c2 by simp
    qed
  qed
qed

section \<open>Lines of a text and of a block\<close>

lemma splitlines_lines_clean:
  "\<forall>l\<in>set (splitlines s). \<forall>c\<in>set l. \<not> is_linebreak c"
proof (induction s rule: splitlines.induct)
  case 1
  show ?case by simp
next
  case (2 d cs)
  show ?case
  proof (cases "is_linebreak d")
    case True
    with 2 show ?thesis
      by (simp split: if_splits)
  next
    case False
    with 2 show ?thesis
      by (cases "splitlines cs") auto
  qed
qed

lemma splitlines_no_linebreak:
  "l \<in> set (splitlines s) \<Longrightarrow> c \<in> set l \<Longrightarrow> \<not> is_linebreak c"
  using splitlines_lines_clean by blast

lemma LF_linebreak: "is_linebreak (10)"
  by (simp add: is_linebreak_def)

lemma splitlines_line_LF:
  "\<forall>c\<in>set l. \<not> is_linebreak c \<Longrightarrow> splitlines (l @ 10 # rest) = l # splitlines rest"
  by (induction l) (simp_all add: LF_linebreak)

lemma splitlines_single:
  "\<forall>c\<in>set l. \<not> is_linebreak c \<Longrightarrow> l \<noteq> [] \<Longrightarrow> splitlines l = [l]"
proof (induction l)
  case Nil
  then show ?case by simp
next
  case (Cons c l)
  then show ?case
    by (cases l) auto
qed

lemma splitlines_join_nl:
  "\<forall>l\<in>set ls. \<forall>c\<in>set l. \<not> is_linebreak c \<Longrightarrow> ls \<noteq> [] \<Longrightarrow> last ls \<noteq> [] \<Longrightarrow>
   splitlines (join_nl ls) = ls"
proof (induction ls rule: join_nl.induct)
  case 1
  then show ?case by simp
next
  case (2 l)
  then show ?case by (simp add: splitlines_single)
next
  case (3 l m ls)
  then show ?case by (simp add: splitlines_line_LF)
qed

lemma es_patron_etiqueta_no_vacia: "es_patron_etiqueta l \<Longrightarrow> l \<noteq> []"
  by (auto simp: etiqueta_eval)

lemma append_LF_eq:
  assumes "10 \<notin> set l" "10 \<notin> set l'" "l @ 10 # r = l' @ 10 # r'"
  shows "l = l' \<and> r = r'"
proof -
  have "takeWhile (\<lambda>c. c \<noteq> 10) (l @ 10 # r) = l"
    using assms(1) by (subst takeWhile_append2) auto
  moreover have "takeWhile (\<lambda>c. c \<noteq> 10) (l' @ 10 # r') = l'"
    using assms(2) by (subst takeWhile_append2) auto
  ultimately have "l = l'"
    using assms(3) by simp
  with assms(3) show ?thesis by simp
qed

lemma join_nl_has_LF: "2 \<le> length ls \<Longrightarrow> 10 \<in> set (join_nl ls)"
  by (induction ls rule: join_nl.induct) simp_all

lemma join_nl_inj:
  "\<forall>l\<in>set xs. 10 \<notin> set l \<Longrightarrow> \<forall>l\<in>set ys. 10 \<notin> set l \<Longrightarrow>
   xs \<noteq> [] \<Longrightarrow> ys \<noteq> [] \<Longrightarrow> join_nl xs = join_nl ys \<Longrightarrow> xs = ys"
proof (induction xs arbitrary: ys rule: join_nl.induct)
  case 1
  then show ?case by simp
next
  case (2 l)
  show ?case
  proof (cases "2 \<le> length ys")
    case True
    then have "10 \<in> set (join_nl ys)" by (rule join_nl_has_LF)
    with 2 show ?thesis by simp
  next
    case False
    with 2 obtain y where "ys = [y]"
      by (cases ys) (auto simp: Suc_le_eq)
    with 2 show ?thesis by simp
  qed
next
  case (3 l m ls)
  show ?case
  proof (cases ys)
    case Nil
    with 3 show ?thesis by simp
  next
    case (Cons y ys1)
    show ?thesis
    proof (cases ys1)
      case Nil
      have "10 \<in> set (join_nl (l # m # ls))" by (rule join_nl_has_LF) simp
      with 3 Cons Nil show ?thesis by simp
    next
      case c2: (Cons y' yss)
      from 3 Cons c2 have eq: "l @ 10 # join_nl (m # ls) = y @ 10 # join_nl (y' # yss)"
        by simp
      have "l = y \<and> join_nl (m # ls) = join_nl (y' # yss)"
        using 3 Cons c2 by (intro append_LF_eq [OF _ _ eq]) simp_all
      moreover from this have "m # ls = y' # yss"
        using 3 Cons c2 by (intro "3.IH") simp_all
      ultimately show ?thesis
        using Cons c2 by simp
    qed
  qed
qed

section \<open>Invariants of the block extractor\<close>

lemma recorrer_buffer:
  "(dentro_bloque (recorrer inicial ls) \<longrightarrow>
      bloque_actual (recorrer inicial ls) \<noteq> [] \<and>
      es_patron_etiqueta (hd (bloque_actual (recorrer inicial ls))) \<and>
      (\<forall>l\<in>set (tl (bloque_actual (recorrer inicial ls))). \<not> es_patron_etiqueta l)) \<and>
   (\<not> dentro_bloque (recorrer inicial ls) \<longrightarrow> bloque_actual (recorrer inicial ls) = [])"
proof (induction ls rule: rev_induct)
  case Nil
  show ?case by (simp add: inicial_def)
next
  case (snoc l ls)
  then show ?case
    by (auto simp: recorrer_snoc paso_def)
qed

lemma recorrer_pendiente:
  "\<exists>pre. ls = pre @ bloque_actual (recorrer inicial ls) \<and>
         recorrer inicial pre =
           \<lparr>bloques = bloques (recorrer inicial ls), bloque_actual = [], dentro_bloque = False\<rparr>"
proof (induction ls rule: rev_induct)
  case Nil
  show ?case by (simp add: inicial_def)
next
  case (snoc l ls)
  let ?st = "recorrer inicial ls"
  from snoc obtain pre where pre: "ls = pre @ bloque_actual ?st"
    "recorrer inicial pre = \<lparr>bloques = bloques ?st, bloque_actual = [], dentro_bloque = False\<rparr>"
    by blast
  have buf: "\<not> dentro_bloque ?st \<longrightarrow> bloque_actual ?st = []"
    using recorrer_buffer [of ls] by blast
  show ?case
  proof (cases "dentro_bloque ?st")
    case True
    show ?thesis
    proof (cases "es_patron_etiqueta l")
      case True
      with \<open>dentro_bloque ?st\<close> show ?thesis
        by (intro exI [of _ "ls @ [l]"]) (simp add: recorrer_snoc paso_def)
    next
      case False
      with \<open>dentro_bloque ?st\<close> pre show ?thesis
        by (intro exI [of _ pre]) (simp add: recorrer_snoc paso_def)
    qed
  next
    case False
    with buf have e: "bloque_actual ?st = []" by blast
    show ?thesis
    proof (cases "es_patron_etiqueta l")
      case True
      with False e pre show ?thesis
        by (intro exI [of _ pre]) (simp add: recorrer_snoc paso_def)
    next
      case nl: False
      with False e show ?thesis
        by (intro exI [of _ "ls @ [l]"]) (simp add: recorrer_snoc paso_def)
    qed
  qed
qed

lemma recorrer_bloques_forma:
  "\<forall>b\<in>set (bloques (recorrer inicial ls)).
     \<exists>blk. b = join_nl blk \<and> 2 \<le> length blk \<and> set blk \<subseteq> set ls \<and>
           es_patron_etiqueta (hd blk) \<and> es_patron_etiqueta (last blk) \<and>
           (\<forall>l\<in>set (butlast (tl blk)). \<not> es_patron_etiqueta l)"
proof (induction ls rule: rev_induct)
  case Nil
  show ?case by (simp add: inicial_def)
next
  case (snoc l ls)
  let ?st = "recorrer inicial ls"
  let ?ok = "\<lambda>xs b. \<exists>blk. b = join_nl blk \<and> 2 \<le> length blk \<and> set blk \<subseteq> set xs \<and>
           es_patron_etiqueta (hd blk) \<and> es_patron_etiqueta (last blk) \<and>
           (\<forall>l\<in>set (butlast (tl blk)). \<not> es_patron_etiqueta l)"
  have old: "?ok (ls @ [l]) b" if "b \<in> set (bloques ?st)" for b
  proof -
    from snoc that obtain blk where "b = join_nl blk \<and> 2 \<le> length blk \<and> set blk \<subseteq> set ls \<and>
           es_patron_etiqueta (hd blk) \<and> es_patron_etiqueta (last blk) \<and>
           (\<forall>l\<in>set (butlast (tl blk)). \<not> es_patron_etiqueta l)"
      by blast
    then show ?thesis
      by (intro exI [of _ blk]) auto
  qed
  show ?case
  proof (cases "es_patron_etiqueta l \<and> dentro_bloque ?st")
    case True
    let ?buf = "bloque_actual ?st"
    from True have buf: "?buf \<noteq> []" "es_patron_etiqueta (hd ?buf)"
      "\<forall>l\<in>set (tl ?buf). \<not> es_patron_etiqueta l"
      using recorrer_buffer [of ls] by blast+
    obtain pre where "ls = pre @ ?buf"
      using recorrer_pendiente [of ls] by blast
    then have sub: "set ?buf \<subseteq> set ls"
      by (metis set_append sup_ge2)
    have new: "?ok (ls @ [l]) (join_nl (?buf @ [l]))"
    proof (intro exI [of _ "?buf @ [l]"] conjI)
      show "2 \<le> length (?buf @ [l])"
        using buf(1) by (cases ?buf) simp_all
      show "set (?buf @ [l]) \<subseteq> set (ls @ [l])"
        using sub by auto
      show "es_patron_etiqueta (hd (?buf @ [l]))"
        using buf by simp
      show "es_patron_etiqueta (last (?buf @ [l]))"
        using True by simp
      show "\<forall>l\<in>set (butlast (tl (?buf @ [l]))). \<not> es_patron_etiqueta l"
        using buf by (simp add: butlast_append)
    qed simp
    have "bloques (recorrer inicial (ls @ [l])) = bloques ?st @ [join_nl (?buf @ [l])]"
      using True by (simp add: recorrer_snoc paso_def)
    with old new show ?thesis
      by auto
  next
    case False
    then have "bloques (recorrer inicial (ls @ [l])) = bloques ?st"
      by (auto simp: recorrer_snoc paso_def)
    with old show ?thesis
      by auto
  qed
qed

lemma recorrer_cuenta:
  "length (bloques (recorrer inicial ls)) = length (filter es_patron_etiqueta ls) div 2 \<and>
   (dentro_bloque (recorrer inicial ls) \<longleftrightarrow> odd (length (filter es_patron_etiqueta ls)))"
proof (induction ls rule: rev_induct)
  case Nil
  show ?case by (simp add: inicial_def)
next
  case (snoc l ls)
  then show ?case
    by (auto simp: recorrer_snoc paso_def elim!: oddE)
qed

section \<open>What the block extractor returns\<close>

lemma ejemplo_lineas:
  "splitlines (codepoints ''**A*\<newline>hello\<newline>**B*'')
     = [codepoints ''**A*'', codepoints ''hello'', codepoints ''**B*'']"
  "splitlines (codepoints ''**A*\<newline>x'') = [codepoints ''**A*'', codepoints ''x'']"
  by (simp_all add: is_linebreak_def codepoints_def)

lemma ejemplo_etiquetas:
  "es_patron_etiqueta (codepoints ''**A*'')" "es_patron_etiqueta (codepoints ''**B*'')"
  "\<not> es_patron_etiqueta (codepoints ''hello'')" "\<not> es_patron_etiqueta (codepoints ''x'')"
  by (simp_all add: etiqueta_eval)

lemma ejemplo_bloques:
  "extraer_bloques [codepoints ''**A*'', codepoints ''hello'', codepoints ''**B*'']
     = [codepoints ''**A*\<newline>hello\<newline>**B*'']"
  "extraer_bloques [codepoints ''**A*'', codepoints ''x''] = []"
  by (simp_all add: extraer_bloques_def inicial_def paso_def ejemplo_etiquetas)
    (simp add: codepoints_def)

text \<open>
  Claim C1: when the lines of the text end while the loop is inside a block, the pending
  buffer is discarded. In that case the buffer is the last opening label line followed by
  lines that are no labels, the lines of the text are some earlier lines followed by the
  buffer, the result is what the earlier lines alone give, and the buffer joined as a
  block is not among the returned blocks. The lines \<^verbatim>\<open>**A*\<close>, \<^verbatim>\<open>x\<close> give no block.
\<close>

theorem unterminated_block_discarded:
  "(dentro_bloque (recorrer inicial (splitlines texto)) \<longrightarrow>
      bloque_actual (recorrer inicial (splitlines texto)) \<noteq> [] \<and>
      es_patron_etiqueta (hd (bloque_actual (recorrer inicial (splitlines texto)))) \<and>
      (\<forall>l\<in>set (tl (bloque_actual (recorrer inicial (splitlines texto)))). \<not> es_patron_etiqueta l) \<and>
      (\<exists>pre. splitlines texto = pre @ bloque_actual (recorrer inicial (splitlines texto)) \<and>
             \<not> dentro_bloque (recorrer inicial pre) \<and>
             ext_bloq_comentados_patron_etiqueta texto = extraer_bloques pre) \<and>
      join_nl (bloque_actual (recorrer inicial (splitlines texto)))
        \<notin> set (ext_bloq_comentados_patron_etiqueta texto)) \<and>
   extraer_bloques [codepoints ''**A*'', codepoints ''x''] = [] \<and>
   splitlines (codepoints ''**A*\<newline>x'') = [codepoints ''**A*'', codepoints ''x''] \<and>
   ext_bloq_comentados_patron_etiqueta (codepoints ''**A*\<newline>x'') = []"
proof -
  let ?ls = "splitlines texto"
  let ?st = "recorrer inicial ?ls"
  let ?buf = "bloque_actual ?st"
  have out: "ext_bloq_comentados_patron_etiqueta texto = bloques ?st"
    by (simp add: ext_bloq_comentados_patron_etiqueta_def extraer_bloques_def)
  have general: "bloque_actual ?st \<noteq> [] \<and>
      es_patron_etiqueta (hd ?buf) \<and>
      (\<forall>l\<in>set (tl ?buf). \<not> es_patron_etiqueta l) \<and>
      (\<exists>pre. ?ls = pre @ ?buf \<and> \<not> dentro_bloque (recorrer inicial pre) \<and>
             ext_bloq_comentados_patron_etiqueta texto = extraer_bloques pre) \<and>
      join_nl ?buf \<notin> set (ext_bloq_comentados_patron_etiqueta texto)"
    if inside: "dentro_bloque ?st"
  proof -
    from inside have buf: "?buf \<noteq> []" "es_patron_etiqueta (hd ?buf)"
      "\<forall>l\<in>set (tl ?buf). \<not> es_patron_etiqueta l"
      using recorrer_buffer [of ?ls] by blast+
    obtain pre where pre: "?ls = pre @ ?buf"
      "recorrer inicial pre = \<lparr>bloques = bloques ?st, bloque_actual = [], dentro_bloque = False\<rparr>"
      using recorrer_pendiente [of ?ls] by blast
    have decomp: "\<exists>pre. ?ls = pre @ ?buf \<and> \<not> dentro_bloque (recorrer inicial pre) \<and>
             ext_bloq_comentados_patron_etiqueta texto = extraer_bloques pre"
      using pre out by (intro exI [of _ pre]) (simp add: extraer_bloques_def)
    have clean: "10 \<notin> set l" if "l \<in> set ?ls" for l
      using that splitlines_no_linebreak [of l texto "10"] LF_linebreak by blast
    have absent: "join_nl ?buf \<notin> set (bloques ?st)"
    proof
      assume "join_nl ?buf \<in> set (bloques ?st)"
      then obtain blk where blk: "join_nl ?buf = join_nl blk" "2 \<le> length blk"
        "set blk \<subseteq> set ?ls" "es_patron_etiqueta (last blk)"
        using recorrer_bloques_forma [of ?ls] by blast
      have "set ?buf \<subseteq> set ?ls"
        using pre(1) by (metis set_append sup_ge2)
      with blk(3) clean have "\<forall>l\<in>set ?buf. 10 \<notin> set l" "\<forall>l\<in>set blk. 10 \<notin> set l"
        by blast+
      moreover from blk(2) have "blk \<noteq> []" by auto
      ultimately have eq: "?buf = blk"
        using buf(1) blk(1) by (intro join_nl_inj)
      with blk(2) have "tl ?buf \<noteq> []"
        by (cases ?buf) auto
      then have "last ?buf \<in> set (tl ?buf)"
        using buf(1) by (metis last_in_set last_tl)
      with buf(3) have "\<not> es_patron_etiqueta (last ?buf)" by blast
      with blk(4) eq show False by simp
    qed
    from buf decomp absent out show ?thesis by simp
  qed
  have example: "ext_bloq_comentados_patron_etiqueta (codepoints ''**A*\<newline>x'') = []"
    by (simp only: ext_bloq_comentados_patron_etiqueta_def ejemplo_lineas ejemplo_bloques)
  from general example ejemplo_lineas(2) ejemplo_bloques(2) show ?thesis
    by blast
qed

theorem unterminated_block_discarded_witness:
  "dentro_bloque (recorrer inicial
      (splitlines (codepoints ''**A*\<newline>hello\<newline>**B*\<newline>**A*\<newline>x''))) \<and>
   bloque_actual (recorrer inicial
      (splitlines (codepoints ''**A*\<newline>hello\<newline>**B*\<newline>**A*\<newline>x'')))
     = [codepoints ''**A*'', codepoints ''x''] \<and>
   ext_bloq_comentados_patron_etiqueta (codepoints ''**A*\<newline>hello\<newline>**B*\<newline>**A*\<newline>x'')
     = [codepoints ''**A*\<newline>hello\<newline>**B*'']"
  using unterminated_block_discarded [of "codepoints ''**A*\<newline>hello\<newline>**B*\<newline>**A*\<newline>x''"]
  by (simp add: is_linebreak_def ext_bloq_comentados_patron_etiqueta_def extraer_bloques_def
      inicial_def paso_def etiqueta_eval)

text \<open>
  Claim C5: the extractor returns one block per matched pair of an opening and a closing
  label line, in the order of the opening lines, each block being the opening line, the
  lines between and the closing line joined by line feeds: it agrees with
  \<open>spec_block_pairs\<close> on the lines of every text, and the third conjunct spells one
  pair out. A text with no label line gives no block, and the lines \<^verbatim>\<open>**A*\<close>,
  \<^verbatim>\<open>hello\<close>, \<^verbatim>\<open>**B*\<close> give exactly the block \<^verbatim>\<open>**A*\nhello\n**B*\<close>.
\<close>

theorem one_block_per_label_pair:
  "ext_bloq_comentados_patron_etiqueta texto = spec_block_pairs (splitlines texto) \<and>
   (filter es_patron_etiqueta (splitlines texto) = [] \<longrightarrow>
      ext_bloq_comentados_patron_etiqueta texto = []) \<and>
   ((\<forall>l\<in>set pre. \<not> es_patron_etiqueta l) \<and> es_patron_etiqueta ap \<and>
    (\<forall>l\<in>set mid. \<not> es_patron_etiqueta l) \<and> es_patron_etiqueta ci \<longrightarrow>
      extraer_bloques (pre @ ap # mid @ ci # rest) =
        join_nl (ap # mid @ [ci]) # extraer_bloques rest) \<and>
   extraer_bloques [codepoints ''**A*'', codepoints ''hello'', codepoints ''**B*'']
     = [codepoints ''**A*\<newline>hello\<newline>**B*''] \<and>
   splitlines (codepoints ''**A*\<newline>hello\<newline>**B*'')
     = [codepoints ''**A*'', codepoints ''hello'', codepoints ''**B*''] \<and>
   ext_bloq_comentados_patron_etiqueta (codepoints ''**A*\<newline>hello\<newline>**B*'')
     = [codepoints ''**A*\<newline>hello\<newline>**B*'']"
proof -
  have ref: "ext_bloq_comentados_patron_etiqueta texto = spec_block_pairs (splitlines texto)"
    by (simp add: ext_bloq_comentados_patron_etiqueta_def extraer_bloques_refines_spec)
  have none: "filter es_patron_etiqueta (splitlines texto) = [] \<longrightarrow>
      ext_bloq_comentados_patron_etiqueta texto = []"
    by (simp add: ext_bloq_comentados_patron_etiqueta_def extraer_bloques_sin_etiquetas
        filter_empty_conv)
  have pair: "(\<forall>l\<in>set pre. \<not> es_patron_etiqueta l) \<and> es_patron_etiqueta ap \<and>
    (\<forall>l\<in>set mid. \<not> es_patron_etiqueta l) \<and> es_patron_etiqueta ci \<longrightarrow>
      extraer_bloques (pre @ ap # mid @ ci # rest) =
        join_nl (ap # mid @ [ci]) # extraer_bloques rest"
    using extraer_bloques_par [of pre ap mid ci rest] by blast
  have example: "ext_bloq_comentados_patron_etiqueta (codepoints ''**A*\<newline>hello\<newline>**B*'')
     = [codepoints ''**A*\<newline>hello\<newline>**B*'']"
    by (simp only: ext_bloq_comentados_patron_etiqueta_def ejemplo_lineas ejemplo_bloques)
  from ref none pair example ejemplo_lineas(1) ejemplo_bloques(1) show ?thesis
    by blast
qed

theorem one_block_per_label_pair_witness:
  "extraer_bloques
     [codepoints ''intro'', codepoints ''**a*'', codepoints ''uno'', codepoints ''dos'',
      codepoints '' **B* '', codepoints ''fin'']
     = [codepoints ''**a*\<newline>uno\<newline>dos\<newline> **B* ''] \<and>
   ext_bloq_comentados_patron_etiqueta (codepoints ''uno\<newline>dos'') = []"
proof -
  note pairs = one_block_per_label_pair [of "codepoints ''uno\<newline>dos''"
      "[codepoints ''intro'']" "codepoints ''**a*''" "[codepoints ''uno'', codepoints ''dos'']" "codepoints '' **B* ''" "[codepoints ''fin'']"]
  have no_labels: "filter es_patron_etiqueta (splitlines (codepoints ''uno\<newline>dos'')) = []"
    by (simp add: is_linebreak_def etiqueta_eval)
  have labels: "(\<forall>l\<in>set [codepoints ''intro'']. \<not> es_patron_etiqueta l) \<and> es_patron_etiqueta (codepoints ''**a*'') \<and>
      (\<forall>l\<in>set [codepoints ''uno'', codepoints ''dos'']. \<not> es_patron_etiqueta l) \<and> es_patron_etiqueta (codepoints '' **B* '')"
    by (simp add: etiqueta_eval)
  have rest: "extraer_bloques [codepoints ''fin''] = []"
    by (simp add: extraer_bloques_def inicial_def paso_def etiqueta_eval)
  from pairs no_labels have "ext_bloq_comentados_patron_etiqueta (codepoints ''uno\<newline>dos'') = []"
    by blast
  moreover from pairs labels have
    "extraer_bloques ([codepoints ''intro''] @ codepoints ''**a*'' # [codepoints ''uno'', codepoints ''dos''] @ codepoints '' **B* '' # [codepoints ''fin'']) =
       join_nl (codepoints ''**a*'' # [codepoints ''uno'', codepoints ''dos''] @ [codepoints '' **B* '']) # extraer_bloques [codepoints ''fin'']"
    by blast
  ultimately show ?thesis
    using rest by (simp add: codepoints_def)
qed

text \<open>
  Claim C10: every returned block is the line-feed join of at least two lines, which are
  also the lines \<open>splitlines\<close> finds in it; its first and its last line are label
  lines and no line between them is one. The number of returned blocks is the number of
  label lines of the text divided by two, rounded down.
\<close>

theorem blocks_are_label_delimited:
  "(\<forall>b\<in>set (ext_bloq_comentados_patron_etiqueta texto).
      \<exists>blk. b = join_nl blk \<and> splitlines b = blk \<and> 2 \<le> length blk \<and>
            es_patron_etiqueta (hd blk) \<and> es_patron_etiqueta (last blk) \<and>
            (\<forall>l\<in>set (butlast (tl blk)). \<not> es_patron_etiqueta l)) \<and>
   length (ext_bloq_comentados_patron_etiqueta texto) =
     length (filter es_patron_etiqueta (splitlines texto)) div 2"
proof -
  let ?ls = "splitlines texto"
  have out: "ext_bloq_comentados_patron_etiqueta texto = bloques (recorrer inicial ?ls)"
    by (simp add: ext_bloq_comentados_patron_etiqueta_def extraer_bloques_def)
  have shape: "\<exists>blk. b = join_nl blk \<and> splitlines b = blk \<and> 2 \<le> length blk \<and>
            es_patron_etiqueta (hd blk) \<and> es_patron_etiqueta (last blk) \<and>
            (\<forall>l\<in>set (butlast (tl blk)). \<not> es_patron_etiqueta l)"
    if "b \<in> set (bloques (recorrer inicial ?ls))" for b
  proof -
    from that obtain blk where blk: "b = join_nl blk" "2 \<le> length blk" "set blk \<subseteq> set ?ls"
      "es_patron_etiqueta (hd blk)" "es_patron_etiqueta (last blk)"
      "\<forall>l\<in>set (butlast (tl blk)). \<not> es_patron_etiqueta l"
      using recorrer_bloques_forma [of ?ls] by blast
    from blk(3) have clean: "\<forall>l\<in>set blk. \<forall>c\<in>set l. \<not> is_linebreak c"
      using splitlines_lines_clean [of texto] by blast
    from blk(2) have ne: "blk \<noteq> []" by auto
    from blk(5) have "last blk \<noteq> []" by (rule es_patron_etiqueta_no_vacia)
    with clean ne have "splitlines (join_nl blk) = blk"
      by (rule splitlines_join_nl)
    with blk show ?thesis by blast
  qed
  have count: "length (bloques (recorrer inicial ?ls)) =
      length (filter es_patron_etiqueta ?ls) div 2"
    using recorrer_cuenta [of ?ls] by blast
  from shape count show ?thesis
    unfolding out by blast
qed

theorem blocks_are_label_delimited_witness:
  "ext_bloq_comentados_patron_etiqueta (codepoints ''**A*\<newline>hello\<newline>**B*\<newline>**C*'')
     = [codepoints ''**A*\<newline>hello\<newline>**B*''] \<and>
   length (filter es_patron_etiqueta
      (splitlines (codepoints ''**A*\<newline>hello\<newline>**B*\<newline>**C*''))) = 3"
  using blocks_are_label_delimited [of "codepoints ''**A*\<newline>hello\<newline>**B*\<newline>**C*''"]
  by (simp add: is_linebreak_def ext_bloq_comentados_patron_etiqueta_def extraer_bloques_def
      inicial_def paso_def etiqueta_eval)

end
